theory Spec2Isabelle
  imports Complex_Main
begin

section \<open>Python string primitives\<close>

text \<open>
  Text is modelled as \<^typ>\<open>string\<close>; one \<^typ>\<open>char\<close> stands for one code point
  in the range 0..255. The whitespace class is the one \<^verbatim>\<open>str.strip()\<close> and
  \<^verbatim>\<open>str.split()\<close> use for these code points.
\<close>

definition py_isspace :: "char \<Rightarrow> bool" where
  "py_isspace c = (c \<in> {CHR 0x09, CHR 0x0A, CHR 0x0B, CHR 0x0C, CHR 0x0D,
                          CHR 0x1C, CHR 0x1D, CHR 0x1E, CHR 0x1F, CHR 0x20, CHR 0x85, CHR 0xA0})"

text \<open>\<^verbatim>\<open>s.strip()\<close>: whitespace removed at both ends.\<close>

definition py_strip :: "string \<Rightarrow> string" where
  "py_strip s = rev (dropWhile py_isspace (rev (dropWhile py_isspace s)))"

text \<open>\<^verbatim>\<open>s.split()\<close>: the maximal runs of non-whitespace characters.\<close>

fun py_split :: "string \<Rightarrow> string list" where
  "py_split [] = []"
| "py_split (c # cs) =
     (if py_isspace c then py_split cs
      else (case cs of
              [] \<Rightarrow> [[c]]
            | d # _ \<Rightarrow>
                if py_isspace d then [c] # py_split cs
                else (case py_split cs of
                        w # ws \<Rightarrow> (c # w) # ws
                      | [] \<Rightarrow> [[c]])))"

text \<open>\<^verbatim>\<open>s.split(sep)\<close> for a one-character separator; the result is never empty.\<close>

fun split_char :: "char \<Rightarrow> string \<Rightarrow> string list" where
  "split_char sep [] = [[]]"
| "split_char sep (c # cs) =
     (if c = sep then [] # split_char sep cs
      else (case split_char sep cs of
              w # ws \<Rightarrow> (c # w) # ws
            | [] \<Rightarrow> [[c]]))"

text \<open>\<^verbatim>\<open>sep.join(xs)\<close>.\<close>

fun py_join :: "string \<Rightarrow> string list \<Rightarrow> string" where
  "py_join sep [] = []"
| "py_join sep [x] = x"
| "py_join sep (x # y # ys) = x @ sep @ py_join sep (y # ys)"

section \<open>ConfigValidator: cleaning\<close>

text \<open>
  The body of the loop of \<^verbatim>\<open>_clean_config_content\<close> (validators.py) for one raw line:
  \<open>None\<close> where the loop runs \<^verbatim>\<open>continue\<close>, the appended line otherwise.
\<close>

definition clean_line :: "string \<Rightarrow> string option" where
  "clean_line raw =
     (let line = py_strip raw in
      if line = [] then None
      else if hd line = CHR ''#'' then None
      else if CHR ''#'' \<in> set line then
        (let line2 = py_strip (hd (split_char (CHR ''#'') line)) in
         if line2 = [] then None else Some (py_join '' '' (py_split line2)))
      else Some (py_join '' '' (py_split line)))"

definition clean_config_content :: "string \<Rightarrow> string" where
  "clean_config_content content =
     py_join [CHR 0x0A] (List.map_filter clean_line (split_char (CHR 0x0A) content))"


section \<open>Auxiliary predicates for the cleaning proofs\<close>

text \<open>A token: non-empty and free of whitespace.\<close>

definition tok_ok :: "string \<Rightarrow> bool" where
  "tok_ok w = (w \<noteq> [] \<and> (\<forall>c\<in>set w. \<not> py_isspace c))"

text \<open>A cleaned line: tokens without \<open>#\<close>, joined by single spaces.\<close>

definition cleaned_line :: "string \<Rightarrow> bool" where
  "cleaned_line l = (\<exists>ws. ws \<noteq> [] \<and> (\<forall>w\<in>set ws. tok_ok w \<and> CHR ''#'' \<notin> set w) \<and> l = py_join '' '' ws)"

section \<open>Rollback conversion\<close>

text \<open>
  \<^verbatim>\<open>s.lower()\<close> on code points below 256: the ASCII capitals and the Latin-1
  capitals (0xC0..0xDE without 0xD7) move up by 32, everything else stays.
\<close>

definition upper_chars :: string where
  "upper_chars = ''ABCDEFGHIJKLMNOPQRSTUVWXYZ'' @
     [CHR 0xC0, CHR 0xC1, CHR 0xC2, CHR 0xC3, CHR 0xC4, CHR 0xC5, CHR 0xC6, CHR 0xC7, CHR 0xC8, CHR 0xC9, CHR 0xCA, CHR 0xCB, CHR 0xCC, CHR 0xCD, CHR 0xCE, CHR 0xCF, CHR 0xD0, CHR 0xD1, CHR 0xD2, CHR 0xD3, CHR 0xD4, CHR 0xD5, CHR 0xD6, CHR 0xD8, CHR 0xD9, CHR 0xDA, CHR 0xDB, CHR 0xDC, CHR 0xDD, CHR 0xDE]"

definition lower_chars :: string where
  "lower_chars = ''abcdefghijklmnopqrstuvwxyz'' @
     [CHR 0xE0, CHR 0xE1, CHR 0xE2, CHR 0xE3, CHR 0xE4, CHR 0xE5, CHR 0xE6, CHR 0xE7, CHR 0xE8, CHR 0xE9, CHR 0xEA, CHR 0xEB, CHR 0xEC, CHR 0xED, CHR 0xEE, CHR 0xEF, CHR 0xF0, CHR 0xF1, CHR 0xF2, CHR 0xF3, CHR 0xF4, CHR 0xF5, CHR 0xF6, CHR 0xF8, CHR 0xF9, CHR 0xFA, CHR 0xFB, CHR 0xFC, CHR 0xFD, CHR 0xFE]"

definition py_lower_char :: "char \<Rightarrow> char" where
  "py_lower_char c = (case map_of (zip upper_chars lower_chars) c of None \<Rightarrow> c | Some d \<Rightarrow> d)"

definition py_lower :: "string \<Rightarrow> string" where
  "py_lower s = map py_lower_char s"

text \<open>\<^verbatim>\<open>s.startswith(p)\<close>.\<close>

definition startswith :: "string \<Rightarrow> string \<Rightarrow> bool" where
  "startswith s p = (take (length p) s = p)"

text \<open>
  The console (the Rich library) is outside the repository. A call of
  \<^verbatim>\<open>console.print\<close> whose text holds data of the run can fail: Rich reads the text as
  markup and raises \<^verbatim>\<open>MarkupError\<close> for a closing tag that matches no open tag. Each
  such call is answered by an oracle: \<open>None\<close> when the call returns, the message of the
  \<^verbatim>\<open>MarkupError\<close> otherwise.
\<close>

datatype markup_error = MarkupError string

text \<open>
  \<^verbatim>\<open>_convert_set_to_delete\<close> (core.py). One pass of the loop body either skips the
  line silently (blank or comment), appends a converted line to \<^verbatim>\<open>delete_lines\<close>,
  or prints the warning ``Skipping non-set command in rollback'' with the line in it and
  appends nothing. \<open>skip_warning\<close> is the oracle of that print, asked with the line.
\<close>

datatype rollback_item = Converted string | Skipped string

definition convert_line ::
    "(string \<Rightarrow> string option) \<Rightarrow> string \<Rightarrow> markup_error + rollback_item option" where
  "convert_line skip_warning raw =
     (let line = py_strip raw in
      if line = [] \<or> startswith line ''#'' then Inr None
      else if startswith (py_lower line) ''set '' then
        Inr (Some (Converted (''delete '' @ drop 4 line)))
      else if startswith (py_lower line) ''delete '' then
        Inr (Some (Converted (''set '' @ drop 7 line)))
      else (case skip_warning line of
              None \<Rightarrow> Inr (Some (Skipped line))
            | Some msg \<Rightarrow> Inl (MarkupError msg)))"

text \<open>The loop: the first pass that raises ends it.\<close>

fun convert_lines ::
    "(string \<Rightarrow> string option) \<Rightarrow> string list \<Rightarrow> markup_error + rollback_item list" where
  "convert_lines skip_warning [] = Inr []"
| "convert_lines skip_warning (raw # rest) =
     (case convert_line skip_warning raw of
        Inl e \<Rightarrow> Inl e
      | Inr item \<Rightarrow>
          (case convert_lines skip_warning rest of
             Inl e \<Rightarrow> Inl e
           | Inr items \<Rightarrow> Inr (case item of None \<Rightarrow> items | Some i \<Rightarrow> i # items)))"

text \<open>
  The function returns the joined \<^verbatim>\<open>delete_lines\<close>; the model gives with it the lines
  the warning was printed for.
\<close>

definition convert_set_to_delete ::
    "(string \<Rightarrow> string option) \<Rightarrow> string \<Rightarrow> markup_error + string \<times> string list" where
  "convert_set_to_delete skip_warning config_content =
     (case convert_lines skip_warning (split_char (CHR 0x0A) (py_strip config_content)) of
        Inl e \<Rightarrow> Inl e
      | Inr items \<Rightarrow>
          Inr (py_join [CHR 0x0A]
                 (List.map_filter (\<lambda>i. case i of Converted l \<Rightarrow> Some l | Skipped _ \<Rightarrow> None) items),
               List.map_filter (\<lambda>i. case i of Skipped l \<Rightarrow> Some l | Converted _ \<Rightarrow> None) items))"

text \<open>
  A line as the validator's cleaning leaves it: non-empty, trimmed, not a comment, without
  a line break.
\<close>

definition wf_line :: "string \<Rightarrow> bool" where
  "wf_line l = (l \<noteq> [] \<and> py_strip l = l \<and> \<not> startswith l ''#'' \<and> CHR 0x0A \<notin> set l)"

text \<open>The two tests of the loop body, and the line it appends when one of them holds.\<close>

definition is_set :: "string \<Rightarrow> bool" where
  "is_set l = startswith (py_lower l) ''set ''"

definition is_delete :: "string \<Rightarrow> bool" where
  "is_delete l = startswith (py_lower l) ''delete ''"

definition swap_verb :: "string \<Rightarrow> string" where
  "swap_verb l = (if is_set l then ''delete '' @ drop 4 l else ''set '' @ drop 7 l)"

section \<open>ConfigValidator: syntax validation\<close>

text \<open>
  The messages appended to \<^verbatim>\<open>errors\<close> and \<^verbatim>\<open>warnings\<close> in validators.py, as
  values: each carries the line number of its message, and the offending word where the
  message quotes one.
\<close>

datatype syntax_error =
    InvalidCommand nat string
  | IncompleteSet nat
  | SetTooShort nat
  | UnmatchedQuotes nat
  | UnmatchedBrackets nat

datatype syntax_warning =
    DoubleDots nat
  | TrailingWhitespace nat
  | UnrecognizedHierarchy nat string

fun error_line :: "syntax_error \<Rightarrow> nat" where
  "error_line (InvalidCommand n w) = n"
| "error_line (IncompleteSet n) = n"
| "error_line (SetTooShort n) = n"
| "error_line (UnmatchedQuotes n) = n"
| "error_line (UnmatchedBrackets n) = n"

definition valid_set_commands :: "string list" where
  "valid_set_commands =
     [''set'', ''delete'', ''deactivate'', ''activate'', ''protect'', ''unprotect'']"

definition valid_hierarchies :: "string list" where
  "valid_hierarchies =
     [''interfaces'', ''protocols'', ''routing-options'', ''policy-options'',
      ''firewall'', ''security'', ''system'', ''chassis'', ''forwarding-options'',
      ''class-of-service'', ''access'', ''ethernet-switching-options'',
      ''vlans'', ''switch-options'', ''poe'', ''virtual-chassis'', ''snmp'',
      ''services'', ''applications'', ''groups'', ''apply-groups'']"

text \<open>\<^verbatim>\<open>sub in s\<close> for strings.\<close>

fun py_contains :: "string \<Rightarrow> string \<Rightarrow> bool" where
  "py_contains [] sub = (sub = [])"
| "py_contains (c # cs) sub = (startswith (c # cs) sub \<or> py_contains cs sub)"

text \<open>\<^verbatim>\<open>s.endswith(' ')\<close>.\<close>

definition ends_with_space :: "string \<Rightarrow> bool" where
  "ends_with_space s = (s \<noteq> [] \<and> last s = CHR '' '')"

text \<open>
  \<^verbatim>\<open>_validate_set_command_syntax\<close>: the returned flag with the two lists as the call
  leaves them. \<^verbatim>\<open>parts[1]\<close> is read only where \<open>parts\<close> has three elements or more.
\<close>

definition validate_set_command_syntax ::
    "string \<Rightarrow> nat \<Rightarrow> syntax_error list \<Rightarrow> syntax_warning list
       \<Rightarrow> bool \<times> syntax_error list \<times> syntax_warning list" where
  "validate_set_command_syntax line line_num errors warnings =
     (let parts = py_split line in
      if length parts < 3 then (False, errors @ [SetTooShort line_num], warnings)
      else if count_list line (CHR 0x22) mod 2 \<noteq> 0
        then (False, errors @ [UnmatchedQuotes line_num], warnings)
      else if count_list line (CHR ''['') \<noteq> count_list line (CHR '']'')
        then (False, errors @ [UnmatchedBrackets line_num], warnings)
      else
        (let w1 = (if py_contains line ''..'' then warnings @ [DoubleDots line_num] else warnings);
             w2 = (if ends_with_space line then w1 @ [TrailingWhitespace line_num] else w1);
             hierarchy = parts ! 1;
             w3 = (if \<not> list_ex (\<lambda>valid_hier. startswith hierarchy valid_hier) valid_hierarchies
                   then w2 @ [UnrecognizedHierarchy line_num hierarchy] else w2)
         in (True, errors, w3)))"

text \<open>
  One pass of the loop of \<^verbatim>\<open>_validate_config_syntax\<close>. A line that is not blank has
  a first word, so \<^verbatim>\<open>line.split()[0]\<close> is defined where it is read.
\<close>

definition validate_line ::
    "nat \<Rightarrow> string \<Rightarrow> syntax_error list \<times> syntax_warning list
       \<Rightarrow> syntax_error list \<times> syntax_warning list" where
  "validate_line line_num line st =
     (let (errors, warnings) = st in
      if py_strip line = [] then (errors, warnings)
      else
        (let first_word = py_lower (hd (py_split line)) in
         if first_word \<notin> set valid_set_commands
           then (errors @ [InvalidCommand line_num first_word], warnings)
         else if first_word = ''set'' then
           (if length (py_split line) < 2 then (errors @ [IncompleteSet line_num], warnings)
            else snd (validate_set_command_syntax line line_num errors warnings))
         else (errors, warnings)))"

text \<open>The loop over \<^verbatim>\<open>enumerate(lines, 1)\<close>.\<close>

fun validate_lines ::
    "nat \<Rightarrow> string list \<Rightarrow> syntax_error list \<times> syntax_warning list
       \<Rightarrow> syntax_error list \<times> syntax_warning list" where
  "validate_lines line_num [] st = st"
| "validate_lines line_num (line # rest) st =
     validate_lines (Suc line_num) rest (validate_line line_num line st)"

text \<open>
  The failures of \<^verbatim>\<open>validate_and_clean_config\<close>: the first five are raised as
  \<^verbatim>\<open>ValueError\<close>, the last is the \<^verbatim>\<open>MarkupError\<close> of a console print.
\<close>

datatype validation_error =
    FileNotFound
  | NotAFile
  | UnreadableFile
  | EmptyFile
  | ValidationFailed "syntax_error list"
  | MarkupFailure string

text \<open>
  The prints of the validator whose text holds data of the run: the line that names the
  file being validated, the panel of the collected errors and the panel of the collected
  warnings. Each oracle gives \<open>None\<close> when the print returns and the message of the
  \<^verbatim>\<open>MarkupError\<close> otherwise.
\<close>

record console =
  banner_error :: "string \<Rightarrow> string option"
  errors_panel_error :: "syntax_error list \<Rightarrow> string option"
  warnings_panel_error :: "syntax_warning list \<Rightarrow> string option"

text \<open>A console on which every one of these prints returns.\<close>

definition quiet_console :: console where
  "quiet_console =
     \<lparr> banner_error = (\<lambda>path. None),
       errors_panel_error = (\<lambda>errors. None),
       warnings_panel_error = (\<lambda>warnings. None) \<rparr>"

text \<open>
  \<^verbatim>\<open>_validate_config_syntax\<close>: when any error was collected the error panel is printed
  and \<^verbatim>\<open>ValueError\<close> raised; otherwise the warnings, if any, are printed in a panel
  and the function returns.
\<close>

definition validate_config_syntax ::
    "console \<Rightarrow> string \<Rightarrow> validation_error + syntax_warning list" where
  "validate_config_syntax con content =
     (let (errors, warnings) = validate_lines 1 (split_char (CHR 0x0A) content) ([], []) in
      if errors \<noteq> [] then
        (case errors_panel_error con errors of
           Some msg \<Rightarrow> Inl (MarkupFailure msg)
         | None \<Rightarrow> Inl (ValidationFailed errors))
      else if warnings \<noteq> [] then
        (case warnings_panel_error con warnings of
           Some msg \<Rightarrow> Inl (MarkupFailure msg)
         | None \<Rightarrow> Inr warnings)
      else Inr warnings)"

text \<open>
  What the file system holds at a path: nothing, something that is not a file, a file
  that cannot be opened or read, or a file with its text as decoded (UTF-8, or Latin-1
  when that fails).
\<close>

datatype file_state = Missing | Directory | Unreadable | Content string

text \<open>
  The file is read in text mode: on the way in, every CR LF and every other CR becomes
  LF.
\<close>

fun universal_newlines :: "string \<Rightarrow> string" where
  "universal_newlines [] = []"
| "universal_newlines [c] = [if c = CHR 0x0D then CHR 0x0A else c]"
| "universal_newlines (c # d # cs) =
     (if c = CHR 0x0D \<and> d = CHR 0x0A then CHR 0x0A # universal_newlines cs
      else if c = CHR 0x0D then CHR 0x0A # universal_newlines (d # cs)
      else c # universal_newlines (d # cs))"

text \<open>
  \<^verbatim>\<open>validate_and_clean_config\<close>, for a file system \<open>files\<close> and a path. The preview
  and the statistics it prints hold no data of the run as markup.
\<close>

definition validate_and_clean_config ::
    "console \<Rightarrow> (string \<Rightarrow> file_state) \<Rightarrow> string \<Rightarrow> validation_error + string" where
  "validate_and_clean_config con files config_file =
     (case banner_error con config_file of
        Some msg \<Rightarrow> Inl (MarkupFailure msg)
      | None \<Rightarrow>
          (case files config_file of
             Missing \<Rightarrow> Inl FileNotFound
           | Directory \<Rightarrow> Inl NotAFile
           | Unreadable \<Rightarrow> Inl UnreadableFile
           | Content text \<Rightarrow>
               (let content = universal_newlines text in
                if py_strip content = [] then Inl EmptyFile
                else
                  (let cleaned_content = clean_config_content content in
                   case validate_config_syntax con cleaned_content of
                     Inl e \<Rightarrow> Inl e
                   | Inr warnings \<Rightarrow> Inr cleaned_content))))"

text \<open>The two counting tests of \<^verbatim>\<open>_validate_set_command_syntax\<close>, as one predicate.\<close>

definition unbalanced :: "string \<Rightarrow> bool" where
  "unbalanced line = (count_list line (CHR 0x22) mod 2 \<noteq> 0
                      \<or> count_list line (CHR ''['') \<noteq> count_list line (CHR '']''))"

section \<open>The tool object and its configuration file\<close>

text \<open>
  A Python dictionary with string keys is an association list in insertion order;
  \<open>dict_set\<close> is the assignment \<^verbatim>\<open>d[k] = v\<close>: it replaces the value of a key already
  present and appends a new key at the end.
\<close>

fun dict_set :: "('k \<times> 'v) list \<Rightarrow> 'k \<Rightarrow> 'v \<Rightarrow> ('k \<times> 'v) list" where
  "dict_set [] k v = [(k, v)]"
| "dict_set ((k', v') # d) k v = (if k' = k then (k, v) # d else (k', v') # dict_set d k v)"


text \<open>
  The parsed \<^verbatim>\<open>config.ini\<close>: the sections in file order, each with its items.
  \<open>None\<close> stands for a file the parser rejects.
\<close>

type_synonym ini = "(string \<times> (string \<times> string) list) list"

text \<open>
  The attributes of \<^verbatim>\<open>JunosPushTool\<close>. An attribute that no statement has assigned
  yet is \<open>None\<close>: reading it raises \<^verbatim>\<open>AttributeError\<close>.
\<close>

record tool =
  config_ini_path :: string
  timeout :: nat
  verbose :: bool
  credentials :: "string option \<times> string option"
  device_groups :: "(string \<times> (string \<times> string) list) list"
  ignore_patterns :: "string list option"
  normalize_patterns :: "string list option"

datatype tool_error =
    RuntimeError
  | GroupNotFound string
  | GroupSize string nat
  | AttributeError

text \<open>\<^verbatim>\<open>__init__\<close> up to the call of \<^verbatim>\<open>_load_config\<close>.\<close>

definition init_attributes :: "string \<Rightarrow> nat \<Rightarrow> bool \<Rightarrow> tool" where
  "init_attributes path tmo verb =
     \<lparr> config_ini_path = path, timeout = tmo, verbose = verb,
       credentials = (None, None), device_groups = [],
       ignore_patterns = None, normalize_patterns = None \<rparr>"

text \<open>
  \<^verbatim>\<open>_load_config\<close>: every exception inside becomes \<^verbatim>\<open>RuntimeError\<close>. An empty
  user or password counts as missing.
\<close>

definition load_groups :: "ini \<Rightarrow> (string \<times> (string \<times> string) list) list" where
  "load_groups config =
     foldl (\<lambda>groups (section, items).
              if section \<notin> set [''settings'', ''ignore_those_lines_in_compare'']
              then dict_set groups section (foldl (\<lambda>devices (key, val). dict_set devices key val) [] items)
              else groups)
           [] config"

definition load_config :: "ini option \<Rightarrow> tool \<Rightarrow> tool_error + tool" where
  "load_config parsed self =
     (case parsed of
        None \<Rightarrow> Inl RuntimeError
      | Some config \<Rightarrow>
          (case map_of config ''settings'' of
             None \<Rightarrow> Inl RuntimeError
           | Some settings \<Rightarrow>
               (let creds = (map_of settings ''user'', map_of settings ''password'') in
                if fst creds \<in> {None, Some []} \<or> snd creds \<in> {None, Some []} then Inl RuntimeError
                else
                  (let patterns =
                         (case map_of config ''ignore_those_lines_in_compare'' of
                            None \<Rightarrow> []
                          | Some items \<Rightarrow> map (\<lambda>(key, val). py_strip val) items)
                   in Inr (self\<lparr> credentials := creds,
                                 ignore_patterns := Some patterns,
                                 device_groups := load_groups config \<rparr>)))))"

definition init_tool :: "ini option \<Rightarrow> string \<Rightarrow> nat \<Rightarrow> bool \<Rightarrow> tool_error + tool" where
  "init_tool parsed path tmo verb = load_config parsed (init_attributes path tmo verb)"


section \<open>A concrete configuration\<close>

text \<open>
  A configuration file with the groups \<open>core\<close> (two devices) and \<open>edge\<close> (one device),
  and the tool built from it.
\<close>

definition sample_ini :: ini where
  "sample_ini =
     [(''settings'', [(''user'', ''admin''), (''password'', ''secret'')]),
      (''core'', [(''device1'', ''10.0.0.1''), (''device2'', ''10.0.0.2'')]),
      (''edge'', [(''device1'', ''10.0.0.3'')])]"

definition sample_tool :: tool where
  "sample_tool =
     \<lparr> config_ini_path = ''config.ini'', timeout = 60, verbose = False,
       credentials = (Some ''admin'', Some ''secret''),
       device_groups = [(''core'', [(''device1'', ''10.0.0.1''), (''device2'', ''10.0.0.2'')]),
                        (''edge'', [(''device1'', ''10.0.0.3'')])],
       ignore_patterns = Some [], normalize_patterns = None \<rparr>"


section \<open>Devices as an environment\<close>

text \<open>
  The device sessions (PyEZ \<^verbatim>\<open>Device\<close> and \<^verbatim>\<open>Config\<close>) are outside the repository.
  Every call the tool makes on them is answered by the environment \<open>world\<close>: a value,
  or an exception. An exception is one of the classes \<^verbatim>\<open>ConnectError\<close>,
  \<^verbatim>\<open>LockError\<close>, \<^verbatim>\<open>CommitError\<close>, \<^verbatim>\<open>RpcError\<close> (\<open>JunosError\<close>) or any other
  subclass of \<^verbatim>\<open>Exception\<close> (\<open>OtherError\<close>), with its message \<^verbatim>\<open>str(e)\<close>. The
  environment is asked with the stage of the run, so a device may answer differently at
  different times. Leaving a \<^verbatim>\<open>with\<close> block (closing the session, releasing the private
  configuration) is taken not to raise, and so is the built-in \<^verbatim>\<open>print\<close>.
\<close>

datatype exn = JunosError string | OtherError string

fun exn_message :: "exn \<Rightarrow> string" where
  "exn_message (JunosError m) = m"
| "exn_message (OtherError m) = m"

datatype stage = Pending | Push

datatype database = Candidate | Committed | Active

record world =
  dev_open :: "stage \<Rightarrow> string \<Rightarrow> exn + unit"
  dev_get_config :: "stage \<Rightarrow> string \<Rightarrow> database \<Rightarrow> exn + string option"
  dev_open_backup :: "string \<Rightarrow> string option"
  dev_write_backup :: "string \<Rightarrow> string \<Rightarrow> string option"
  dev_lock :: "string \<Rightarrow> exn + unit"
  dev_load :: "string \<Rightarrow> string \<Rightarrow> exn + unit"
  dev_commit_check :: "string \<Rightarrow> exn + bool"
  dev_commit :: "string \<Rightarrow> nat option \<Rightarrow> exn + unit"

text \<open>
  \<open>dev_open\<close> answers \<^verbatim>\<open>Device(host=device_ip, ...).__enter__()\<close>. \<open>dev_get_config\<close>
  answers \<^verbatim>\<open>dev.rpc.get_config(...)\<close> with the \<^verbatim>\<open>.text\<close> of the reply, \<open>None\<close> when
  the reply has no text; \<open>Active\<close> stands for a call that names no database.
  \<open>dev_open_backup\<close> answers the opening of the backup file of a device for writing
  and \<open>dev_write_backup\<close> the writing of a text to it and its closing: \<open>None\<close> when
  the call returns, the message of the exception otherwise. \<open>dev_lock\<close>
  answers \<^verbatim>\<open>Config(dev, mode='private').__enter__()\<close>, \<open>dev_load\<close> answers
  \<^verbatim>\<open>cu.load(text, format='set')\<close>, \<open>dev_commit_check\<close> answers \<^verbatim>\<open>cu.commit_check()\<close>
  and \<open>dev_commit\<close> answers \<^verbatim>\<open>cu.commit(ignore_warning=True)\<close>, with the minutes of
  \<^verbatim>\<open>confirm\<close> when given.
\<close>

text \<open>
  \<^verbatim>\<open>s.splitlines()\<close> on code points below 256: a line ends at LF, CR, CR LF, VT, FF,
  FS, GS, RS or NEL; a final line break opens no further line.
\<close>

definition is_linebreak :: "char \<Rightarrow> bool" where
  "is_linebreak c = (c \<in> {CHR 0x0A, CHR 0x0B, CHR 0x0C, CHR 0x0D, CHR 0x1C, CHR 0x1D,
                            CHR 0x1E, CHR 0x85})"

fun py_splitlines :: "string \<Rightarrow> string list" where
  "py_splitlines [] = []"
| "py_splitlines [c] = (if is_linebreak c then [[]] else [[c]])"
| "py_splitlines (c # d # cs) =
     (if c = CHR 0x0D \<and> d = CHR 0x0A then [] # py_splitlines cs
      else if is_linebreak c then [] # py_splitlines (d # cs)
      else (case py_splitlines (d # cs) of
              [] \<Rightarrow> [[c]]
            | l # ls \<Rightarrow> (c # l) # ls))"

text \<open>
  The message of the \<^verbatim>\<open>AttributeError\<close> that \<^verbatim>\<open>result.text.splitlines()\<close> raises when
  the reply has no text.
\<close>

definition none_splitlines_message :: string where
  "none_splitlines_message =
     [CHR 0x27] @ ''NoneType'' @ [CHR 0x27] @ '' object has no attribute ''
       @ [CHR 0x27] @ ''splitlines'' @ [CHR 0x27]"

section \<open>The pending-configuration check\<close>

text \<open>
  The prints of \<^verbatim>\<open>_check_pending_config\<close> and \<^verbatim>\<open>_validate_device_state\<close> that hold data
  of the run, each with its oracle (\<open>None\<close> when the call returns, the message of the
  \<^verbatim>\<open>MarkupError\<close> otherwise):
  \<^item> \<open>checking_task_error\<close>: \<^verbatim>\<open>progress.add_task(f"Checking {device_ip}...")\<close>, which
    renders the description as markup when the progress display is live;
  \<^item> \<open>pending_found_error\<close>: ``Pending configuration found on \<^verbatim>\<open>{device_ip}\<close>'';
  \<^item> \<open>no_pending_error\<close>: ``No pending configuration on \<^verbatim>\<open>{device_ip}\<close>'';
  \<^item> \<open>could_not_check_error\<close>: ``Warning: Could not check pending config on
    \<^verbatim>\<open>{device_ip}\<close>: \<^verbatim>\<open>{str(e)}\<close>'', asked with the device and the message;
  \<^item> \<open>pending_devices_error\<close>: ``Found pending configuration on devices: ...'', asked
    with the devices listed.
\<close>

record state_console =
  checking_task_error :: "string \<Rightarrow> string option"
  pending_found_error :: "string \<Rightarrow> string option"
  no_pending_error :: "string \<Rightarrow> string option"
  could_not_check_error :: "string \<Rightarrow> string \<Rightarrow> string option"
  pending_devices_error :: "string list \<Rightarrow> string option"

definition quiet_state_console :: state_console where
  "quiet_state_console =
     \<lparr> checking_task_error = (\<lambda>_. None), pending_found_error = (\<lambda>_. None),
       no_pending_error = (\<lambda>_. None), could_not_check_error = (\<lambda>_ _. None),
       pending_devices_error = (\<lambda>_. None) \<rparr>"

text \<open>
  The handler \<^verbatim>\<open>except Exception as e\<close> of \<^verbatim>\<open>_check_pending_config\<close>: it prints the
  warning with \<^verbatim>\<open>str(e)\<close> in it and returns \<^verbatim>\<open>False\<close>. The print is outside the
  \<^verbatim>\<open>try\<close>, so when it raises the function raises.
\<close>

definition could_not_check :: "state_console \<Rightarrow> string \<Rightarrow> string \<Rightarrow> markup_error + bool" where
  "could_not_check con device_ip message =
     (case could_not_check_error con device_ip message of
        None \<Rightarrow> Inr False
      | Some m \<Rightarrow> Inl (MarkupError m))"

text \<open>
  \<^verbatim>\<open>_check_pending_config\<close> (core.py). The two prints inside the \<^verbatim>\<open>try\<close> are caught
  by the handler when they raise.
\<close>

definition check_pending_config :: "world \<Rightarrow> state_console \<Rightarrow> string \<Rightarrow> markup_error + bool" where
  "check_pending_config w con device_ip =
     (case dev_open w Pending device_ip of
        Inl e \<Rightarrow> could_not_check con device_ip (exn_message e)
      | Inr _ \<Rightarrow>
          (case dev_get_config w Pending device_ip Candidate of
             Inl e \<Rightarrow> could_not_check con device_ip (exn_message e)
           | Inr None \<Rightarrow> could_not_check con device_ip none_splitlines_message
           | Inr (Some text) \<Rightarrow>
               (case dev_get_config w Pending device_ip Committed of
                  Inl e \<Rightarrow> could_not_check con device_ip (exn_message e)
                | Inr None \<Rightarrow> could_not_check con device_ip none_splitlines_message
                | Inr (Some text_comitted) \<Rightarrow>
                    (let result = py_splitlines text;
                         result_comitted = py_splitlines text_comitted
                     in if result \<noteq> [] \<and> result_comitted \<noteq> [] then
                          (let pending_lines = set result - set result_comitted in
                           if pending_lines \<noteq> {} then
                             (case pending_found_error con device_ip of
                                None \<Rightarrow> Inr True
                              | Some m \<Rightarrow> could_not_check con device_ip m)
                           else Inr False)
                        else
                          (case no_pending_error con device_ip of
                             None \<Rightarrow> Inr False
                           | Some m \<Rightarrow> could_not_check con device_ip m)))))"

text \<open>
  The task \<^verbatim>\<open>check_device\<close> that \<^verbatim>\<open>_validate_device_state\<close> hands to the thread pool.
\<close>

definition check_device :: "world \<Rightarrow> state_console \<Rightarrow> string \<Rightarrow> markup_error + bool" where
  "check_device w con device_ip =
     (case checking_task_error con device_ip of
        Some m \<Rightarrow> Inl (MarkupError m)
      | None \<Rightarrow> check_pending_config w con device_ip)"

text \<open>
  The loop over the finished tasks: \<^verbatim>\<open>future.result()\<close> raises what the task raised,
  otherwise the device is appended to \<^verbatim>\<open>pending_devices\<close> when its check returned
  \<^verbatim>\<open>True\<close>. The tasks are taken in the order of the devices.
\<close>

fun collect_pending :: "(string \<times> (markup_error + bool)) list \<Rightarrow> markup_error + string list" where
  "collect_pending [] = Inr []"
| "collect_pending ((device_ip, r) # rest) =
     (case r of
        Inl e \<Rightarrow> Inl e
      | Inr has_pending \<Rightarrow>
          (case collect_pending rest of
             Inl e \<Rightarrow> Inl e
           | Inr pending_devices \<Rightarrow>
               Inr (if has_pending then device_ip # pending_devices else pending_devices)))"

text \<open>\<^verbatim>\<open>_validate_device_state\<close> (core.py).\<close>

definition validate_device_state ::
    "world \<Rightarrow> state_console \<Rightarrow> string list \<Rightarrow> markup_error + bool" where
  "validate_device_state w con devices =
     (case collect_pending (map (\<lambda>device. (device, check_device w con device)) devices) of
        Inl e \<Rightarrow> Inl e
      | Inr pending_devices \<Rightarrow>
          if pending_devices \<noteq> [] then
            (case pending_devices_error con pending_devices of
               None \<Rightarrow> Inr False
             | Some m \<Rightarrow> Inl (MarkupError m))
          else Inr True)"

text \<open>
  Sample environments. In \<open>steady_world\<close> every call succeeds and both devices hold one
  line, committed. In \<open>unreadable_world\<close> reading the candidate configuration raises an
  \<^verbatim>\<open>RpcError\<close> whose message holds a closing tag. In \<open>empty_committed_world\<close> the
  candidate configuration holds a line and the committed configuration is read as the
  empty text.
\<close>

definition steady_world :: world where
  "steady_world =
     \<lparr> dev_open = (\<lambda>_ _. Inr ()),
       dev_get_config = (\<lambda>_ _ _. Inr (Some ''set system host-name r1'')),
       dev_open_backup = (\<lambda>_. None),
       dev_write_backup = (\<lambda>_ _. None),
       dev_lock = (\<lambda>_. Inr ()),
       dev_load = (\<lambda>_ _. Inr ()),
       dev_commit_check = (\<lambda>_. Inr True),
       dev_commit = (\<lambda>_ _. Inr ()) \<rparr>"

definition unreadable_message :: string where
  "unreadable_message = ''syntax error, expecting [/configuration]''"

definition unreadable_world :: world where
  "unreadable_world =
     steady_world \<lparr> dev_get_config :=
       (\<lambda>_ _ db. if db = Candidate then Inl (JunosError unreadable_message)
                  else Inr (Some ''set system host-name r1'')) \<rparr>"

definition empty_committed_world :: world where
  "empty_committed_world =
     steady_world \<lparr> dev_get_config :=
       (\<lambda>_ _ db. if db = Committed then Inr (Some [])
                  else Inr (Some ''set system host-name r1'')) \<rparr>"

text \<open>
  The message of the \<^verbatim>\<open>MarkupError\<close> that Rich raises for the closing tag of
  \<open>unreadable_message\<close>, found at a position of the printed text.
\<close>

definition closing_tag_at :: "string \<Rightarrow> string" where
  "closing_tag_at position =
     ''closing tag '' @ [CHR 0x27] @ ''[/configuration]'' @ [CHR 0x27]
       @ '' at position '' @ position @ '' doesn'' @ [CHR 0x27] @ ''t match any open tag''"

text \<open>
  A console as Rich behaves on the warning of \<open>unreadable_world\<close> for device 10.0.0.1:
  the closing tag of the message, at position 89 of the warning, matches no open tag.
\<close>

definition closing_tag_message :: string where
  "closing_tag_message = closing_tag_at ''89''"

definition strict_state_console :: state_console where
  "strict_state_console =
     quiet_state_console \<lparr> could_not_check_error :=
       (\<lambda>_ message. if message = unreadable_message then Some closing_tag_message else None) \<rparr>"
section \<open>DiffEngine\<close>

text \<open>
  \<^verbatim>\<open>_filter_config_lines\<close>: a line is dropped when some ignore pattern occurs in it.
\<close>

definition filter_config_lines :: "string list \<Rightarrow> string list \<Rightarrow> string list" where
  "filter_config_lines patterns config_lines =
     (if patterns = [] then config_lines
      else filter (\<lambda>line. \<not> list_ex (\<lambda>pattern. py_contains (py_strip line) pattern) patterns)
             config_lines)"

text \<open>
  \<^verbatim>\<open>_find_similar_lines_advanced\<close>. The similarity \<open>ratio\<close> comes from a library
  (\<^verbatim>\<open>Levenshtein.ratio\<close>, or \<^verbatim>\<open>difflib\<close> when that is missing): it is a parameter,
  with the floating-point values read as real numbers. \<open>enum\<close> is the order in which
  \<^verbatim>\<open>list(lines)\<close> lists a set.

  The inner loop: one candidate \<open>line2\<close> against the best match so far.
\<close>

definition best_match_step ::
    "(string \<Rightarrow> string \<Rightarrow> real) \<Rightarrow> string \<Rightarrow> string set
       \<Rightarrow> string option \<times> real \<Rightarrow> string \<Rightarrow> string option \<times> real" where
  "best_match_step ratio line1 matched_lines2 st line2 =
     (let (best_match, best_ratio) = st in
      if line2 \<in> matched_lines2 then st
      else
        (let similarity = ratio line1 line2 in
         if 0.85 \<le> similarity \<and> similarity < 1.0 \<and> line1 \<noteq> line2 then
           (if similarity > best_ratio then (Some line2, similarity) else st)
         else st))"

definition find_best_match ::
    "(string \<Rightarrow> string \<Rightarrow> real) \<Rightarrow> string \<Rightarrow> string set \<Rightarrow> string list
       \<Rightarrow> string option \<times> real" where
  "find_best_match ratio line1 matched_lines2 list2 =
     foldl (best_match_step ratio line1 matched_lines2) (None, 0.0) list2"

text \<open>
  The outer loop: \<^verbatim>\<open>if best_match and best_ratio >= 0.85\<close> is false for no match and
  for the empty string.
\<close>

definition similar_step ::
    "(string \<Rightarrow> string \<Rightarrow> real) \<Rightarrow> string list
       \<Rightarrow> (string \<times> string) list \<times> string set \<times> string set \<Rightarrow> string
       \<Rightarrow> (string \<times> string) list \<times> string set \<times> string set" where
  "similar_step ratio list2 st line1 =
     (let (similar_pairs, matched_lines1, matched_lines2) = st;
          (best_match, best_ratio) = find_best_match ratio line1 matched_lines2 list2
      in case best_match of
           None \<Rightarrow> st
         | Some m \<Rightarrow>
             if m \<noteq> [] \<and> best_ratio \<ge> 0.85
             then (similar_pairs @ [(line1, m)], insert line1 matched_lines1, insert m matched_lines2)
             else st)"

definition find_similar_lines_advanced ::
    "(string \<Rightarrow> string \<Rightarrow> real) \<Rightarrow> (string set \<Rightarrow> string list) \<Rightarrow> string set \<Rightarrow> string set
       \<Rightarrow> (string \<times> string) list \<times> string set \<times> string set" where
  "find_similar_lines_advanced ratio enum lines1 lines2 =
     (let list1 = enum lines1;
          list2 = enum lines2;
          (similar_pairs, matched_lines1, matched_lines2) =
             foldl (similar_step ratio list2) ([], {}, {}) list1
      in (similar_pairs, lines1 - matched_lines1, lines2 - matched_lines2))"

text \<open>
  The comparison inside \<^verbatim>\<open>_compare_device_configs\<close>, from the two retrieved line lists
  to the arguments of the display: the unique lines of each side, the similar pairs, the
  common lines and the two totals.
\<close>

definition compare_line_sets ::
    "(string \<Rightarrow> string \<Rightarrow> real) \<Rightarrow> (string set \<Rightarrow> string list) \<Rightarrow> string list \<Rightarrow> string list
       \<Rightarrow> string set \<times> string set \<times> (string \<times> string) list \<times> string set \<times> nat \<times> nat" where
  "compare_line_sets ratio enum results1 results2 =
     (let config1 = set results1;
          config2 = set results2;
          common_lines = config1 \<inter> config2;
          remaining_lines1 = config1 - common_lines;
          remaining_lines2 = config2 - common_lines;
          (similar_pairs, truly_unique1, truly_unique2) =
             find_similar_lines_advanced ratio enum remaining_lines1 remaining_lines2
      in (truly_unique1, truly_unique2, similar_pairs, common_lines, card config1, card config2))"

text \<open>An enumeration of \<open>S\<close>: every element once.\<close>

definition enumerates :: "(string set \<Rightarrow> string list) \<Rightarrow> string set \<Rightarrow> bool" where
  "enumerates enum S = (set (enum S) = S \<and> distinct (enum S))"

text \<open>A concrete enumeration: the elements of a set in the order of a given list.\<close>

definition enum_by :: "string list \<Rightarrow> string set \<Rightarrow> string list" where
  "enum_by universe S = filter (\<lambda>x. x \<in> S) (remdups universe)"

text \<open>
  A sample similarity for concrete runs: twice the number of positions at which two lines
  agree, over the sum of their lengths.
\<close>

definition position_ratio :: "string \<Rightarrow> string \<Rightarrow> real" where
  "position_ratio a b =
     (if a = [] \<and> b = [] then 1
      else 2 * real (length (filter (\<lambda>(x, y). x = y) (zip a b))) / real (length a + length b))"

text \<open>
  Invariants of the two loops of the similarity pass: what holds of the best match so
  far, and of the pairs and matched sets so far.
\<close>

definition good_best :: "(string \<Rightarrow> string \<Rightarrow> real) \<Rightarrow> string \<Rightarrow> string set \<Rightarrow> string set
    \<Rightarrow> string option \<times> real \<Rightarrow> bool" where
  "good_best ratio line1 matched2 L st =
     (case fst st of
        None \<Rightarrow> True
      | Some m \<Rightarrow> m \<in> L \<and> m \<notin> matched2 \<and> snd st = ratio line1 m
                  \<and> 0.85 \<le> ratio line1 m \<and> ratio line1 m < 1 \<and> line1 \<noteq> m)"

definition pairs_inv :: "(string \<Rightarrow> string \<Rightarrow> real) \<Rightarrow> string set \<Rightarrow> string set
    \<Rightarrow> (string \<times> string) list \<times> string set \<times> string set \<Rightarrow> bool" where
  "pairs_inv ratio L1 L2 st =
     (case st of (similar_pairs, matched1, matched2) \<Rightarrow>
        matched1 = fst ` set similar_pairs \<and> matched2 = snd ` set similar_pairs
        \<and> distinct (map fst similar_pairs) \<and> distinct (map snd similar_pairs)
        \<and> (\<forall>(a, b)\<in>set similar_pairs.
              a \<in> L1 \<and> b \<in> L2 \<and> 0.85 \<le> ratio a b \<and> ratio a b < 1 \<and> a \<noteq> b))"


section \<open>Pushing a configuration to a device\<close>

text \<open>
  The calls a push makes on a device and on its backup file, in order: the session, the
  reading of the configuration for the backup, the opening and the writing of the backup
  file, the private configuration (\<open>Lock\<close>), the loading of a text, the commit check and
  the commit.
\<close>

datatype event =
    OpenSession string
  | ReadConfig string
  | OpenBackupFile string
  | WriteBackup string string
  | Lock string
  | Load string string
  | CommitCheck string
  | Commit string "nat option"

text \<open>The steps on the configuration of a device: lock, load, commit check, commit.\<close>

fun is_config_step :: "event \<Rightarrow> bool" where
  "is_config_step (Lock d) = True"
| "is_config_step (Load d text) = True"
| "is_config_step (CommitCheck d) = True"
| "is_config_step (Commit d confirm) = True"
| "is_config_step e = False"

text \<open>
  The prints of the push that hold data of the run, each with its oracle (\<open>None\<close> when
  the call returns, the message of the exception otherwise):
  \<^item> \<open>backup_created_error\<close>: ``Backup created: \<^verbatim>\<open>{backup_path}\<close>'', the path being made of
    the device and the time;
  \<^item> \<open>backup_failed_error\<close>: ``Failed to create backup for \<^verbatim>\<open>{device_ip}\<close>:
    \<^verbatim>\<open>{str(e)}\<close>'', asked with the device and the message;
  \<^item> \<open>skip_warning_error\<close>: the warning of \<^verbatim>\<open>_convert_set_to_delete\<close>, asked with the
    line;
  \<^item> \<open>processing_error\<close>: ``Processing device: \<^verbatim>\<open>{device}\<close>'';
  \<^item> \<open>executing_display_error\<close>: the progress display with the column
    \<^verbatim>\<open>f"Executing {operation} on {device}..."\<close>, rendered by \<^verbatim>\<open>progress.add_task\<close>
    when the display is live, asked with the operation and the device;
  \<^item> \<open>result_error\<close>: \<^verbatim>\<open>f"{device}: {message}"\<close> in green or red, asked with the
    device, the success and the message.
\<close>

record push_console =
  backup_created_error :: "string \<Rightarrow> string option"
  backup_failed_error :: "string \<Rightarrow> string \<Rightarrow> string option"
  skip_warning_error :: "string \<Rightarrow> string option"
  processing_error :: "string \<Rightarrow> string option"
  executing_display_error :: "string \<Rightarrow> string \<Rightarrow> string option"
  result_error :: "string \<Rightarrow> bool \<Rightarrow> string \<Rightarrow> string option"

definition quiet_push_console :: push_console where
  "quiet_push_console =
     \<lparr> backup_created_error = (\<lambda>_. None), backup_failed_error = (\<lambda>_ _. None),
       skip_warning_error = (\<lambda>_. None), processing_error = (\<lambda>_. None),
       executing_display_error = (\<lambda>_ _. None), result_error = (\<lambda>_ _ _. None) \<rparr>"

text \<open>
  The handler \<^verbatim>\<open>except Exception as e\<close> of \<^verbatim>\<open>BackupManager.create_backup\<close> (utils.py):
  it prints the failure with \<^verbatim>\<open>str(e)\<close> in it and returns \<^verbatim>\<open>False\<close>; when the print
  raises, the function raises.
\<close>

definition backup_failed :: "push_console \<Rightarrow> string \<Rightarrow> string \<Rightarrow> markup_error + bool" where
  "backup_failed con device_ip message =
     (case backup_failed_error con device_ip message of
        None \<Rightarrow> Inr False
      | Some m \<Rightarrow> Inl (MarkupError m))"

text \<open>
  The message of the \<^verbatim>\<open>TypeError\<close> that \<^verbatim>\<open>f.write(config.text)\<close> raises when the
  reply has no text.
\<close>

definition write_none_message :: string where
  "write_none_message = ''write() argument must be str, not None''"

text \<open>
  \<^verbatim>\<open>BackupManager.create_backup\<close>: the configuration is read, the backup file is opened
  and written, the success is printed. The print of the success is inside the
  \<^verbatim>\<open>try\<close>.
\<close>

definition create_backup ::
    "world \<Rightarrow> push_console \<Rightarrow> string \<Rightarrow> (markup_error + bool) \<times> event list" where
  "create_backup w con device_ip =
     (case dev_get_config w Push device_ip Active of
        Inl e \<Rightarrow> (backup_failed con device_ip (exn_message e), [ReadConfig device_ip])
      | Inr config_text \<Rightarrow>
          (case dev_open_backup w device_ip of
             Some message \<Rightarrow>
               (backup_failed con device_ip message,
                [ReadConfig device_ip, OpenBackupFile device_ip])
           | None \<Rightarrow>
               (case config_text of
                  None \<Rightarrow>
                    (backup_failed con device_ip write_none_message,
                     [ReadConfig device_ip, OpenBackupFile device_ip])
                | Some text \<Rightarrow>
                    (let trace = [ReadConfig device_ip, OpenBackupFile device_ip,
                                  WriteBackup device_ip text]
                     in case dev_write_backup w device_ip text of
                          Some message \<Rightarrow> (backup_failed con device_ip message, trace)
                        | None \<Rightarrow>
                            (case backup_created_error con device_ip of
                               None \<Rightarrow> (Inr True, trace)
                             | Some m \<Rightarrow> (backup_failed con device_ip m, trace))))))"

text \<open>\<^verbatim>\<open>str(n)\<close> for a natural number.\<close>

definition digit_char :: "nat \<Rightarrow> char" where
  "digit_char d = ''0123456789'' ! d"

fun show_nat :: "nat \<Rightarrow> string" where
  "show_nat n = (if n < 10 then [digit_char n] else show_nat (n div 10) @ [digit_char (n mod 10)])"

declare show_nat.simps [simp del]

text \<open>
  The two \<^verbatim>\<open>except\<close> clauses of \<^verbatim>\<open>_push_config_to_device\<close>. A \<^verbatim>\<open>MarkupError\<close> is
  caught by the second.
\<close>

definition exn_result :: "exn \<Rightarrow> (bool \<times> string) option" where
  "exn_result e =
     Some (False, case e of
                    JunosError m \<Rightarrow> ''Junos error: '' @ m
                  | OtherError m \<Rightarrow> ''Unexpected error: '' @ m)"

definition unexpected_error :: "markup_error \<Rightarrow> (bool \<times> string) option" where
  "unexpected_error e = (case e of MarkupError m \<Rightarrow> Some (False, ''Unexpected error: '' @ m))"

text \<open>
  The body of the block \<^verbatim>\<open>with Config(dev, mode='private') as cu\<close> of
  \<^verbatim>\<open>_push_config_to_device\<close>, entered once the private configuration is open. The
  result is \<open>None\<close> where the function falls off its end (an operation that is none of
  the four it knows) and returns Python's \<^verbatim>\<open>None\<close>.
\<close>

definition locked_operation ::
    "world \<Rightarrow> push_console \<Rightarrow> string \<Rightarrow> string \<Rightarrow> string
       \<Rightarrow> (bool \<times> string) option \<times> event list" where
  "locked_operation w con device_ip config_content operation =
     (if operation = ''rollback'' then
        (case convert_set_to_delete (skip_warning_error con) config_content of
           Inl e \<Rightarrow> (unexpected_error e, [])
         | Inr (delete_config, skipped) \<Rightarrow>
             if py_strip delete_config = [] then
               (Some (False, ''No valid set commands found to convert to delete commands''), [])
             else
               (case dev_load w device_ip delete_config of
                  Inl e \<Rightarrow> (exn_result e, [Load device_ip delete_config])
                | Inr _ \<Rightarrow>
                    (case dev_commit w device_ip None of
                       Inl e \<Rightarrow>
                         (exn_result e, [Load device_ip delete_config, Commit device_ip None])
                     | Inr _ \<Rightarrow>
                         (Some (True, ''Configuration rollback completed - deleted ''
                                  @ show_nat (length (py_splitlines delete_config))
                                  @ '' configuration lines''),
                          [Load device_ip delete_config, Commit device_ip None]))))
      else
        (case dev_load w device_ip config_content of
           Inl e \<Rightarrow> (exn_result e, [Load device_ip config_content])
         | Inr _ \<Rightarrow>
             if operation = ''check'' then
               (case dev_commit_check w device_ip of
                  Inl e \<Rightarrow> (exn_result e, [Load device_ip config_content, CommitCheck device_ip])
                | Inr ok \<Rightarrow>
                    (if ok then Some (True, ''Configuration check passed'')
                     else Some (False, ''Configuration check failed''),
                     [Load device_ip config_content, CommitCheck device_ip]))
             else if operation = ''commit'' then
               (case dev_commit w device_ip None of
                  Inl e \<Rightarrow> (exn_result e, [Load device_ip config_content, Commit device_ip None])
                | Inr _ \<Rightarrow>
                    (Some (True, ''Configuration committed successfully''),
                     [Load device_ip config_content, Commit device_ip None]))
             else if operation = ''commit-confirmed'' then
               (case dev_commit w device_ip (Some 5) of
                  Inl e \<Rightarrow>
                    (exn_result e, [Load device_ip config_content, Commit device_ip (Some 5)])
                | Inr _ \<Rightarrow>
                    (Some (True, ''Configuration committed with confirmation''),
                     [Load device_ip config_content, Commit device_ip (Some 5)]))
             else (None, [Load device_ip config_content])))"

text \<open>
  \<^verbatim>\<open>_push_config_to_device\<close> (core.py): the session, the backup when asked for, the
  private configuration, then the operation.
\<close>

definition push_config_to_device ::
    "world \<Rightarrow> push_console \<Rightarrow> string \<Rightarrow> string \<Rightarrow> string \<Rightarrow> bool
       \<Rightarrow> (bool \<times> string) option \<times> event list" where
  "push_config_to_device w con device_ip config_content operation backup =
     (case dev_open w Push device_ip of
        Inl e \<Rightarrow> (exn_result e, [OpenSession device_ip])
      | Inr _ \<Rightarrow>
          (let (backup_result, backup_trace) =
                 (if backup then create_backup w con device_ip else (Inr True, []));
               t1 = OpenSession device_ip # backup_trace
           in case backup_result of
                Inl e \<Rightarrow> (unexpected_error e, t1)
              | Inr False \<Rightarrow> (Some (False, ''Failed to create backup''), t1)
              | Inr True \<Rightarrow>
                  (case dev_lock w device_ip of
                     Inl e \<Rightarrow> (exn_result e, t1 @ [Lock device_ip])
                   | Inr _ \<Rightarrow>
                       (let (outcome, t2) =
                              locked_operation w con device_ip config_content operation
                        in (outcome, t1 @ [Lock device_ip] @ t2)))))"

section \<open>The two executors\<close>

text \<open>
  What ends \<^verbatim>\<open>_execute_sequential\<close> early: a print that raises, or the unpacking of a
  \<^verbatim>\<open>None\<close> result (\<^verbatim>\<open>TypeError\<close>).
\<close>

datatype run_error = PrintRaised markup_error | UnpackNone

text \<open>
  \<^verbatim>\<open>_execute_sequential\<close>: the devices in group order, \<open>results\<close> being the dictionary
  filled so far.
\<close>

fun execute_sequential ::
    "world \<Rightarrow> push_console \<Rightarrow> string list \<Rightarrow> string \<Rightarrow> string \<Rightarrow> bool
       \<Rightarrow> (string \<times> bool \<times> string) list
       \<Rightarrow> (run_error + (string \<times> bool \<times> string) list) \<times> event list" where
  "execute_sequential w con [] config_content operation backup results = (Inr results, [])"
| "execute_sequential w con (device # rest) config_content operation backup results =
     (case processing_error con device of
        Some m \<Rightarrow> (Inl (PrintRaised (MarkupError m)), [])
      | None \<Rightarrow>
          (case executing_display_error con operation device of
             Some m \<Rightarrow> (Inl (PrintRaised (MarkupError m)), [])
           | None \<Rightarrow>
               (case push_config_to_device w con device config_content operation backup of
                  (None, trace) \<Rightarrow> (Inl UnpackNone, trace)
                | (Some (success, message), trace) \<Rightarrow>
                    (case result_error con device success message of
                       Some m \<Rightarrow> (Inl (PrintRaised (MarkupError m)), trace)
                     | None \<Rightarrow>
                         (let (final, later) =
                                execute_sequential w con rest config_content operation backup
                                  (dict_set results device (success, message))
                          in (final, trace @ later))))))"

text \<open>
  \<^verbatim>\<open>_execute_parallel\<close>: one task per device, nothing printed. The unpacking of a
  \<^verbatim>\<open>None\<close> result is caught per task. The dictionary is given with its entries in the
  order of the devices, and the calls of a device are listed together.
\<close>

definition parallel_outcome :: "(bool \<times> string) option \<Rightarrow> bool \<times> string" where
  "parallel_outcome r =
     (case r of
        None \<Rightarrow> (False, ''Execution error: cannot unpack non-iterable NoneType object'')
      | Some outcome \<Rightarrow> outcome)"

definition execute_parallel ::
    "world \<Rightarrow> push_console \<Rightarrow> string list \<Rightarrow> string \<Rightarrow> string \<Rightarrow> bool
       \<Rightarrow> (string \<times> bool \<times> string) list \<times> event list" where
  "execute_parallel w con devices config_content operation backup =
     (foldl (\<lambda>results device.
               dict_set results device
                 (parallel_outcome
                    (fst (push_config_to_device w con device config_content operation backup))))
            [] devices,
      concat (map (\<lambda>device.
                     snd (push_config_to_device w con device config_content operation backup))
                devices))"

text \<open>Two environments that answer every call of a push on one device alike.\<close>

definition same_answers :: "world \<Rightarrow> world \<Rightarrow> string \<Rightarrow> bool" where
  "same_answers w w' d =
     (dev_open w Push d = dev_open w' Push d
      \<and> dev_get_config w Push d Active = dev_get_config w' Push d Active
      \<and> dev_open_backup w d = dev_open_backup w' d
      \<and> dev_write_backup w d = dev_write_backup w' d
      \<and> dev_lock w d = dev_lock w' d
      \<and> dev_load w d = dev_load w' d
      \<and> dev_commit_check w d = dev_commit_check w' d
      \<and> dev_commit w d = dev_commit w' d)"

text \<open>
  In \<open>backup_unreadable_world\<close> the reading of the configuration of device 10.0.0.1 for
  its backup raises an \<^verbatim>\<open>RpcError\<close> with the message \<open>unreadable_message\<close>; every other
  call succeeds. \<open>strict_push_console\<close> answers as Rich does there: the failure print of
  the backup finds the closing tag at position 69, and the print of the result of the
  device, whose message quotes that tag, finds it at position 48.
\<close>

definition backup_unreadable_world :: world where
  "backup_unreadable_world =
     steady_world \<lparr> dev_get_config :=
       (\<lambda>st d db. if st = Push \<and> d = ''10.0.0.1'' then Inl (JunosError unreadable_message)
                   else Inr (Some ''set system host-name r1'')) \<rparr>"

definition strict_push_console :: push_console where
  "strict_push_console =
     quiet_push_console
       \<lparr> backup_failed_error :=
           (\<lambda>_ message. if message = unreadable_message then Some (closing_tag_at ''69'')
                         else None),
         result_error :=
           (\<lambda>_ _ message. if message = ''Unexpected error: '' @ closing_tag_at ''69''
                           then Some (closing_tag_at ''48'') else None) \<rparr>"
section \<open>The normalization-based similarity pass\<close>

text \<open>
  The ten substitutions \<^verbatim>\<open>re.sub(pattern, replacement, line)\<close> of
  \<^verbatim>\<open>_normalize_config_line\<close>, named in the order of the source. The regular
  expression engine is a library: \<open>re_sub\<close> is a parameter.
\<close>

datatype substitution =
    IPv4Address | IPv6Address | InterfaceNumber
  | HostnameDashed | HostnameRouter | HostnameSwitch
  | AsNumber | PeerAsNumber | VlanIdNumber | VlanNumber

definition normalize_pattern :: "(substitution \<Rightarrow> string \<Rightarrow> string) \<Rightarrow> string \<Rightarrow> string \<Rightarrow> string" where
  "normalize_pattern re_sub normalized_line pattern =
     (if pattern = ''ip_addresses'' then re_sub IPv6Address (re_sub IPv4Address normalized_line)
      else if pattern = ''interface_numbers'' then re_sub InterfaceNumber normalized_line
      else if pattern = ''hostnames'' then
        re_sub HostnameSwitch (re_sub HostnameRouter (re_sub HostnameDashed normalized_line))
      else if pattern = ''as_numbers'' then re_sub PeerAsNumber (re_sub AsNumber normalized_line)
      else if pattern = ''vlan_ids'' then re_sub VlanNumber (re_sub VlanIdNumber normalized_line)
      else normalized_line)"

text \<open>
  \<^verbatim>\<open>_normalize_config_line\<close>: the loop reads \<^verbatim>\<open>self.normalize_patterns\<close> first.
\<close>

definition normalize_config_line ::
    "(substitution \<Rightarrow> string \<Rightarrow> string) \<Rightarrow> tool \<Rightarrow> string \<Rightarrow> tool_error + string" where
  "normalize_config_line re_sub self line =
     (case normalize_patterns self of
        None \<Rightarrow> Inl AttributeError
      | Some patterns \<Rightarrow> Inr (foldl (normalize_pattern re_sub) line patterns))"

text \<open>
  The dictionary comprehension \<^verbatim>\<open>{line: self._normalize_config_line(line) for line in lines}\<close>:
  the first line that raises ends it.
\<close>

fun normalize_all ::
    "(substitution \<Rightarrow> string \<Rightarrow> string) \<Rightarrow> tool \<Rightarrow> string list
       \<Rightarrow> tool_error + (string \<times> string) list" where
  "normalize_all re_sub self [] = Inr []"
| "normalize_all re_sub self (line # rest) =
     (case normalize_config_line re_sub self line of
        Inl e \<Rightarrow> Inl e
      | Inr normal \<Rightarrow>
          (case normalize_all re_sub self rest of
             Inl e \<Rightarrow> Inl e
           | Inr others \<Rightarrow> Inr ((line, normal) # others)))"

text \<open>
  \<^verbatim>\<open>_find_similar_lines\<close>: each line of the first set is paired with the first line of
  the second set that has the same normalized form and is a different line.
\<close>

definition find_similar_lines ::
    "(substitution \<Rightarrow> string \<Rightarrow> string) \<Rightarrow> (string set \<Rightarrow> string list) \<Rightarrow> tool
       \<Rightarrow> string set \<Rightarrow> string set
       \<Rightarrow> tool_error + (string \<times> string) list \<times> string set \<times> string set" where
  "find_similar_lines re_sub enum self lines1 lines2 =
     (case normalize_all re_sub self (enum lines1) of
        Inl e \<Rightarrow> Inl e
      | Inr normalized1 \<Rightarrow>
          (case normalize_all re_sub self (enum lines2) of
             Inl e \<Rightarrow> Inl e
           | Inr normalized2 \<Rightarrow>
               (let similar_pairs =
                      List.map_filter
                        (\<lambda>(line1, norm1).
                           case find (\<lambda>(line2, norm2). norm1 = norm2 \<and> line1 \<noteq> line2) normalized2 of
                             None \<Rightarrow> None
                           | Some (line2, norm2) \<Rightarrow> Some (line1, line2))
                        normalized1;
                    matched_lines1 = fst ` set similar_pairs;
                    matched_lines2 = snd ` set similar_pairs
                in Inr (similar_pairs, lines1 - matched_lines1, lines2 - matched_lines2))))"

section \<open>The methods of the tool and what they call\<close>

text \<open>
  The methods of \<^verbatim>\<open>JunosPushTool\<close>, with for each the methods of the class its body
  calls and the attributes of \<^verbatim>\<open>self\<close> its body assigns. The collaborators
  (\<^verbatim>\<open>ConfigValidator\<close>, \<^verbatim>\<open>ConnectionTester\<close>, \<^verbatim>\<open>BackupManager\<close>) hold no reference
  to the tool and call none of its methods.
\<close>

datatype tool_method =
    M_init | M_load_config | M_validate_group | M_test_connectivity
  | M_check_pending_config | M_validate_device_state | M_push_config_to_device
  | M_filter_config_lines | M_normalize_config_line | M_find_similar_lines
  | M_highlight_differences_in_line | M_find_similar_lines_advanced
  | M_compare_device_configs | M_display_accurate_config_comparison
  | M_convert_set_to_delete | M_validate_configuration_status | M_check_existing_config
  | M_display_config_analysis | M_evaluate_config_status | M_execute_parallel
  | M_execute_sequential | M_display_final_results | M_execute

fun calls :: "tool_method \<Rightarrow> tool_method list" where
  "calls M_init = [M_load_config]"
| "calls M_validate_device_state = [M_check_pending_config]"
| "calls M_push_config_to_device = [M_convert_set_to_delete]"
| "calls M_find_similar_lines = [M_normalize_config_line]"
| "calls M_compare_device_configs =
     [M_filter_config_lines, M_find_similar_lines_advanced, M_display_accurate_config_comparison]"
| "calls M_display_accurate_config_comparison = [M_highlight_differences_in_line]"
| "calls M_validate_configuration_status = [M_check_existing_config, M_display_config_analysis]"
| "calls M_execute_parallel = [M_push_config_to_device]"
| "calls M_execute_sequential = [M_push_config_to_device]"
| "calls M_execute =
     [M_validate_group, M_test_connectivity, M_compare_device_configs,
      M_validate_configuration_status, M_evaluate_config_status, M_validate_device_state,
      M_execute_parallel, M_execute_sequential, M_display_final_results]"
| "calls m = []"

datatype tool_attribute =
    A_config_ini_path | A_timeout | A_verbose | A_credentials | A_device_groups
  | A_validator | A_backup_manager | A_ignore_patterns | A_normalize_patterns

fun assigns :: "tool_method \<Rightarrow> tool_attribute list" where
  "assigns M_init =
     [A_config_ini_path, A_timeout, A_verbose, A_credentials, A_device_groups,
      A_validator, A_backup_manager]"
| "assigns M_load_config = [A_credentials, A_ignore_patterns]"
| "assigns m = []"

text \<open>The methods a call of \<open>m\<close> can reach.\<close>

inductive reaches :: "tool_method \<Rightarrow> tool_method \<Rightarrow> bool" where
  here: "reaches m m"
| step: "m' \<in> set (calls m) \<Longrightarrow> reaches m' m'' \<Longrightarrow> reaches m m''"

text \<open>The methods \<^verbatim>\<open>execute\<close> reaches, listed.\<close>

definition execute_closure :: "tool_method list" where
  "execute_closure =
     [M_execute, M_validate_group, M_test_connectivity, M_compare_device_configs,
      M_validate_configuration_status, M_evaluate_config_status, M_validate_device_state,
      M_execute_parallel, M_execute_sequential, M_display_final_results,
      M_filter_config_lines, M_find_similar_lines_advanced,
      M_display_accurate_config_comparison, M_highlight_differences_in_line,
      M_check_existing_config, M_display_config_analysis, M_check_pending_config,
      M_push_config_to_device, M_convert_set_to_delete]"


section \<open>The public operation, from the pending check on\<close>

text \<open>
  The prints of \<^verbatim>\<open>execute\<close> after the pending check that hold data of the run, each
  with its oracle (\<open>None\<close> when the call returns, the message of the \<^verbatim>\<open>MarkupError\<close>
  otherwise):
  \<^item> \<open>executing_error\<close>: ``Executing '\<^verbatim>\<open>{operation}\<close>' operation...'';
  \<^item> \<open>final_results_error\<close>: \<^verbatim>\<open>_display_final_results(results, operation)\<close>, which
    prints a table of the devices and their messages and a summary of counts;
  \<^item> \<open>operation_failed_error\<close>: ``Operation failed: \<^verbatim>\<open>{str(e)}\<close>'' in the handler of
    \<^verbatim>\<open>execute\<close>, asked with the exception.
\<close>

record run_console =
  executing_error :: "string \<Rightarrow> string option"
  final_results_error :: "(string \<times> bool \<times> string) list \<Rightarrow> string \<Rightarrow> string option"
  operation_failed_error :: "run_error \<Rightarrow> string option"

definition quiet_run_console :: run_console where
  "quiet_run_console =
     \<lparr> executing_error = (\<lambda>_. None), final_results_error = (\<lambda>_ _. None),
       operation_failed_error = (\<lambda>_. None) \<rparr>"

text \<open>
  The handler \<^verbatim>\<open>except Exception as e\<close> of \<^verbatim>\<open>execute\<close>: it prints the failure and
  returns \<^verbatim>\<open>False\<close>; when the print raises, \<^verbatim>\<open>execute\<close> raises.
\<close>

definition operation_failed :: "run_console \<Rightarrow> run_error \<Rightarrow> markup_error + bool" where
  "operation_failed con e =
     (case operation_failed_error con e of
        None \<Rightarrow> Inr False
      | Some m \<Rightarrow> Inl (MarkupError m))"

text \<open>
  The statements of \<^verbatim>\<open>execute\<close> that run the operation (core.py:1075-1091): the print
  of the operation, one of the two executors, the display of the results, and
  \<^verbatim>\<open>all(success for success, _ in results.values())\<close>.
\<close>

definition execute_operation ::
    "world \<Rightarrow> push_console \<Rightarrow> run_console \<Rightarrow> string list \<Rightarrow> string \<Rightarrow> string \<Rightarrow> bool \<Rightarrow> bool
       \<Rightarrow> (run_error + bool) \<times> event list" where
  "execute_operation w pcon rcon devices config_content operation parallel backup =
     (case executing_error rcon operation of
        Some m \<Rightarrow> (Inl (PrintRaised (MarkupError m)), [])
      | None \<Rightarrow>
          (let (run, trace) =
                 (if parallel then
                    (let (results, calls) =
                           execute_parallel w pcon devices config_content operation backup
                     in (Inr results, calls))
                  else execute_sequential w pcon devices config_content operation backup [])
           in case run of
                Inl e \<Rightarrow> (Inl e, trace)
              | Inr results \<Rightarrow>
                  (case final_results_error rcon results operation of
                     Some m \<Rightarrow> (Inl (PrintRaised (MarkupError m)), trace)
                   | None \<Rightarrow>
                       (Inr (list_all (\<lambda>(device, success, message). success) results),
                        trace))))"

text \<open>
  What a run does from the pending check on: the check of a device by
  \<^verbatim>\<open>_validate_device_state\<close>, or a call of the push.
\<close>

datatype run_step = PendingCheck string | DeviceCall event

text \<open>
  \<^verbatim>\<open>execute\<close> from the pending check to its end (core.py:1071-1095), entered with the
  devices of the group and the cleaned configuration: the statement
  \<^verbatim>\<open>if operation not in ['rollback', 'compare'] and not self._validate_device_state(devices): return False\<close>,
  then the operation, all inside the \<^verbatim>\<open>try\<close> of \<^verbatim>\<open>execute\<close>. The result is what
  \<^verbatim>\<open>execute\<close> returns, or the exception its handler raises. \<^verbatim>\<open>_validate_device_state\<close>
  hands the check of every device to its thread pool.
\<close>

definition execute_from_pending_check ::
    "world \<Rightarrow> state_console \<Rightarrow> push_console \<Rightarrow> run_console \<Rightarrow> string list \<Rightarrow> string \<Rightarrow> string
       \<Rightarrow> bool \<Rightarrow> bool \<Rightarrow> (markup_error + bool) \<times> run_step list" where
  "execute_from_pending_check w scon pcon rcon devices config_content operation parallel backup =
     (let operate = (\<lambda>checks.
            case execute_operation w pcon rcon devices config_content operation parallel backup of
              (Inl e, trace) \<Rightarrow> (operation_failed rcon e, checks @ map DeviceCall trace)
            | (Inr all_success, trace) \<Rightarrow> (Inr all_success, checks @ map DeviceCall trace))
      in if operation \<notin> set [''rollback'', ''compare''] then
           (case validate_device_state w scon devices of
              Inl e \<Rightarrow> (operation_failed rcon (PrintRaised e), map PendingCheck devices)
            | Inr no_pending \<Rightarrow>
                if \<not> no_pending then (Inr False, map PendingCheck devices)
                else operate (map PendingCheck devices))
         else operate [])"

text \<open>
  In \<open>pending_world\<close> the candidate configuration of every device holds a line that its
  committed configuration lacks.
\<close>

definition pending_world :: world where
  "pending_world =
     steady_world \<lparr> dev_get_config :=
       (\<lambda>_ _ db. if db = Candidate
                  then Inr (Some (''set system host-name r1'' @ [CHR 0x0A]
                                    @ ''set system ntp server 1.1.1.1''))
                  else Inr (Some ''set system host-name r1'')) \<rparr>"
section \<open>Facts about the string primitives\<close>

lemma py_split_all_space: "(py_split s = []) = (\<forall>c\<in>set s. py_isspace c)"
  by (induction s rule: py_split.induct) (auto split: list.splits)

lemma py_split_tokens_all:
  "\<forall>w\<in>set (py_split s). tok_ok w \<and> set w \<subseteq> set s"
proof (induction s)
  case Nil
  then show ?case by simp
next
  case (Cons c cs)
  show ?case
  proof (cases "py_isspace c")
    case True
    with Cons.IH show ?thesis by auto
  next
    case nsp: False
    show ?thesis
    proof (cases cs)
      case Nil
      with nsp show ?thesis by (simp add: tok_ok_def)
    next
      case (Cons d ds)
      show ?thesis
      proof (cases "py_isspace d")
        case True
        then have "py_split (c # cs) = [c] # py_split cs" using nsp Cons by simp
        with Cons.IH nsp show ?thesis by (auto simp: tok_ok_def)
      next
        case False
        then have "\<not> (\<forall>c\<in>set cs. py_isspace c)" using Cons by auto
        then have "py_split cs \<noteq> []" using py_split_all_space[of cs] by blast
        then obtain v vs where pc: "py_split cs = v # vs" by (cases "py_split cs") auto
        then have "py_split (c # cs) = (c # v) # vs" using nsp Cons False by simp
        moreover have "tok_ok v \<and> set v \<subseteq> set cs" "\<forall>u\<in>set vs. tok_ok u \<and> set u \<subseteq> set cs"
          using Cons.IH pc by simp_all
        ultimately show ?thesis using nsp by (auto simp: tok_ok_def)
      qed
    qed
  qed
qed

lemma py_split_tokens:
  "w \<in> set (py_split s) \<Longrightarrow> tok_ok w \<and> set w \<subseteq> set s"
  using py_split_tokens_all by blast

lemma py_split_single: "tok_ok w \<Longrightarrow> py_split w = [w]"
proof (induction w)
  case Nil
  then show ?case by (simp add: tok_ok_def)
next
  case (Cons c cs)
  then show ?case by (cases cs) (auto simp: tok_ok_def)
qed

lemma py_split_token_then_space:
  "tok_ok w \<Longrightarrow> py_isspace d \<Longrightarrow> py_split (w @ d # r) = w # py_split r"
proof (induction w)
  case Nil
  then show ?case by (simp add: tok_ok_def)
next
  case (Cons c cs)
  then show ?case by (cases cs) (auto simp: tok_ok_def)
qed

lemma space_is_space: "py_isspace (CHR '' '')"
  by (simp add: py_isspace_def)

lemma newline_is_space: "py_isspace (CHR 0x0A)"
  by (simp add: py_isspace_def)

lemma py_split_join:
  "\<forall>w\<in>set ws. tok_ok w \<Longrightarrow> py_split (py_join '' '' ws) = ws"
proof (induction "'' ''" ws rule: py_join.induct)
  case 1
  then show ?case by simp
next
  case (2 x)
  then show ?case by (simp add: py_split_single)
next
  case (3 x y ys)
  then show ?case
    using py_split_token_then_space[of x "CHR '' ''" "py_join '' '' (y # ys)"]
    by (simp add: space_is_space)
qed

lemma py_strip_id:
  "s \<noteq> [] \<Longrightarrow> \<not> py_isspace (hd s) \<Longrightarrow> \<not> py_isspace (last s) \<Longrightarrow> py_strip s = s"
proof -
  assume a: "s \<noteq> []" "\<not> py_isspace (hd s)" "\<not> py_isspace (last s)"
  then have "dropWhile py_isspace s = s" by (cases s) auto
  moreover have "dropWhile py_isspace (rev s) = rev s"
    using a by (cases "rev s") (auto simp: last_rev[symmetric] hd_rev)
  ultimately show ?thesis by (simp add: py_strip_def)
qed

lemma py_join_hd: "w \<noteq> [] \<Longrightarrow> hd (py_join sep (w # ws)) = hd w"
  by (cases ws) auto

lemma py_join_nonempty_last: "ws \<noteq> [] \<Longrightarrow> last ws \<noteq> [] \<Longrightarrow> py_join sep ws \<noteq> []"
  by (induction sep ws rule: py_join.induct) auto

lemma py_join_last: "ws \<noteq> [] \<Longrightarrow> last ws \<noteq> [] \<Longrightarrow> last (py_join sep ws) = last (last ws)"
  by (induction sep ws rule: py_join.induct) (auto simp: py_join_nonempty_last)

lemma py_join_nonempty: "ws \<noteq> [] \<Longrightarrow> hd ws \<noteq> [] \<Longrightarrow> py_join sep ws \<noteq> []"
  by (induction sep ws rule: py_join.induct) auto

lemma py_join_set: "set (py_join sep ws) \<subseteq> set sep \<union> \<Union> (set ` set ws)"
  by (induction sep ws rule: py_join.induct) auto

lemma py_strip_join:
  assumes "ws \<noteq> []" "\<forall>w\<in>set ws. tok_ok w"
  shows "py_strip (py_join '' '' ws) = py_join '' '' ws"
proof (rule py_strip_id)
  from assms have h: "tok_ok (hd ws)" and l: "tok_ok (last ws)" by auto
  show "py_join '' '' ws \<noteq> []"
    using assms h by (intro py_join_nonempty) (auto simp: tok_ok_def)
  show "\<not> py_isspace (hd (py_join '' '' ws))"
    using assms(1) h by (cases ws) (auto simp: py_join_hd tok_ok_def)
  show "\<not> py_isspace (last (py_join '' '' ws))"
    using assms(1) l by (simp add: py_join_last tok_ok_def)
qed

lemma py_strip_subset: "set (py_strip s) \<subseteq> set s"
proof -
  have "set (py_strip s) = set (dropWhile py_isspace (rev (dropWhile py_isspace s)))"
    by (simp add: py_strip_def)
  also have "\<dots> \<subseteq> set (rev (dropWhile py_isspace s))" by (rule set_dropWhileD[THEN subsetI]) 
  also have "\<dots> \<subseteq> set s" using set_dropWhileD by fastforce
  finally show ?thesis .
qed

lemma py_strip_has_nonspace:
  assumes "py_strip s \<noteq> []" shows "\<exists>c\<in>set (py_strip s). \<not> py_isspace c"
proof -
  let ?t = "rev (dropWhile py_isspace s)"
  from assms have ne: "dropWhile py_isspace ?t \<noteq> []" by (simp add: py_strip_def)
  then have "\<not> py_isspace (hd (dropWhile py_isspace ?t))" by (rule hd_dropWhile)
  moreover have "hd (dropWhile py_isspace ?t) \<in> set (dropWhile py_isspace ?t)"
    using ne by simp
  ultimately show ?thesis by (auto simp: py_strip_def)
qed

lemma split_char_nonempty: "split_char sep s \<noteq> []"
  by (induction s) (auto split: list.splits)

lemma split_char_hd: "hd (split_char sep s) = takeWhile (\<lambda>c. c \<noteq> sep) s"
  by (induction s) (auto split: list.splits simp: split_char_nonempty)

lemma split_char_no_sep: "sep \<notin> set l \<Longrightarrow> split_char sep l = [l]"
  by (induction l) auto

lemma split_char_append: "sep \<notin> set l \<Longrightarrow> split_char sep (l @ sep # r) = l # split_char sep r"
  by (induction l) auto

lemma split_char_join:
  "ls \<noteq> [] \<Longrightarrow> \<forall>l\<in>set ls. sep \<notin> set l \<Longrightarrow> split_char sep (py_join [sep] ls) = ls"
proof (induction "[sep]" ls rule: py_join.induct)
  case 1
  then show ?case by simp
next
  case (2 x)
  then show ?case by (simp add: split_char_no_sep)
next
  case (3 x y ys)
  then show ?case by (simp add: split_char_append)
qed

lemma py_split_cleaned:
  assumes "py_strip x \<noteq> []" "CHR ''#'' \<notin> set (py_strip x)"
  shows "cleaned_line (py_join '' '' (py_split (py_strip x)))"
proof -
  let ?ws = "py_split (py_strip x)"
  have "?ws \<noteq> []" using py_strip_has_nonspace[OF assms(1)] by (simp add: py_split_all_space)
  moreover have "\<forall>w\<in>set ?ws. tok_ok w \<and> CHR ''#'' \<notin> set w"
    using py_split_tokens assms(2) by blast
  ultimately show ?thesis unfolding cleaned_line_def by blast
qed

lemma clean_line_cleaned: "clean_line raw = Some l \<Longrightarrow> cleaned_line l"
proof -
  assume a: "clean_line raw = Some l"
  let ?line = "py_strip raw"
  let ?pre = "takeWhile (\<lambda>c. c \<noteq> CHR ''#'') ?line"
  show ?thesis
  proof (cases "CHR ''#'' \<in> set ?line")
    case True
    with a have ne: "py_strip ?pre \<noteq> []" and l: "l = py_join '' '' (py_split (py_strip ?pre))"
      by (auto simp: clean_line_def Let_def split_char_hd split: if_splits)
    have "CHR ''#'' \<notin> set ?pre" by (auto dest: set_takeWhileD)
    then have "CHR ''#'' \<notin> set (py_strip ?pre)" using py_strip_subset by blast
    from py_split_cleaned[OF ne this] l show ?thesis by simp
  next
    case False
    with a have ne: "?line \<noteq> []" and l: "l = py_join '' '' (py_split ?line)"
      by (auto simp: clean_line_def Let_def split: if_splits)
    have "py_strip raw = py_strip raw" ..
    from py_split_cleaned[of raw] ne False l show ?thesis by simp
  qed
qed

lemma cleaned_line_props:
  assumes "cleaned_line l"
  shows "l \<noteq> []" "CHR ''#'' \<notin> set l" "CHR 0x0A \<notin> set l" "clean_line l = Some l"
proof -
  from assms obtain ws where ws: "ws \<noteq> []" "\<forall>w\<in>set ws. tok_ok w \<and> CHR ''#'' \<notin> set w"
     and l: "l = py_join '' '' ws" unfolding cleaned_line_def by blast
  from ws have tk: "\<forall>w\<in>set ws. tok_ok w" by blast
  have "hd ws \<in> set ws" using ws(1) by simp
  then have "hd ws \<noteq> []" using ws(2) by (auto simp: tok_ok_def)
  from py_join_nonempty[OF ws(1) this] show ne: "l \<noteq> []" using l by simp
  show nh: "CHR ''#'' \<notin> set l" using py_join_set[of "'' ''" ws] ws l by auto
  show "CHR 0x0A \<notin> set l" using py_join_set[of "'' ''" ws] ws l newline_is_space
    by (auto simp: tok_ok_def)
  have st: "py_strip l = l" using py_strip_join[OF ws(1) tk] l by simp
  have sp: "py_split l = ws" using py_split_join[OF tk] l by simp
  have "hd l \<noteq> CHR ''#''" using ne nh by (cases l) auto
  then show "clean_line l = Some l" using st sp ne nh l by (simp add: clean_line_def)
qed

lemma map_filter_fixed: "\<forall>l\<in>set ls. f l = Some l \<Longrightarrow> List.map_filter f ls = ls"
  by (induction ls) (auto simp: List.map_filter_simps)

lemma map_filter_range: "l \<in> set (List.map_filter f xs) \<Longrightarrow> \<exists>x. f x = Some l"
  by (induction xs) (auto simp: List.map_filter_simps split: option.splits)

section \<open>Cleaning is idempotent\<close>

text \<open>
  Claim C7. The cleaning function of the validator (blank lines and comments dropped,
  inline whitespace collapsed, every line trimmed) is idempotent: cleaning an already
  cleaned text gives the same text, for every input text.
\<close>

theorem clean_idempotent: "clean_config_content (clean_config_content x) = clean_config_content x"
proof -
  let ?ls = "List.map_filter clean_line (split_char (CHR 0x0A) x)"
  have cl: "\<forall>l\<in>set ?ls. cleaned_line l" using map_filter_range clean_line_cleaned by fast
  show ?thesis
  proof (cases "?ls = []")
    case True
    then have "clean_config_content x = []" by (simp add: clean_config_content_def)
    then show ?thesis by (simp add: clean_config_content_def clean_line_def py_strip_def List.map_filter_simps)
  next
    case False
    have "split_char (CHR 0x0A) (py_join [CHR 0x0A] ?ls) = ?ls"
      using cl cleaned_line_props(3) by (intro split_char_join[OF False]) blast
    moreover have "List.map_filter clean_line ?ls = ?ls"
      using cl cleaned_line_props(4) by (intro map_filter_fixed) blast
    ultimately show ?thesis by (simp add: clean_config_content_def)
  qed
qed


section \<open>Facts about the rollback conversion\<close>

lemma last_dropWhile: "dropWhile P xs \<noteq> [] \<Longrightarrow> last (dropWhile P xs) = last xs"
  by (induction xs) (auto split: if_splits)

lemma py_strip_ends:
  assumes "py_strip s \<noteq> []"
  shows "\<not> py_isspace (hd (py_strip s))" "\<not> py_isspace (last (py_strip s))"
proof -
  let ?u = "dropWhile py_isspace s"
  let ?t = "dropWhile py_isspace (rev ?u)"
  from assms have t: "?t \<noteq> []" by (simp add: py_strip_def)
  have u: "?u \<noteq> []"
  proof
    assume e: "?u = []"
    have "?t = []" unfolding e by simp
    with t show False ..
  qed
  have "last (py_strip s) = hd ?t" using t by (simp add: py_strip_def last_rev)
  then show "\<not> py_isspace (last (py_strip s))" using hd_dropWhile[OF t] by simp
  have "hd (py_strip s) = last ?t" using t by (simp add: py_strip_def hd_rev)
  also have "\<dots> = last (rev ?u)" using t by (rule last_dropWhile)
  also have "\<dots> = hd ?u" using u by (simp add: last_rev)
  finally show "\<not> py_isspace (hd (py_strip s))" using hd_dropWhile[OF u] by simp
qed

lemma wf_line_ends: "wf_line l \<Longrightarrow> \<not> py_isspace (hd l) \<and> \<not> py_isspace (last l)"
  using py_strip_ends[of l] by (auto simp: wf_line_def)

lemma strip_join_lines:
  assumes "ls \<noteq> []" "\<forall>l\<in>set ls. wf_line l"
  shows "py_strip (py_join sep ls) = py_join sep ls"
proof (rule py_strip_id)
  from assms have h: "wf_line (hd ls)" and l: "wf_line (last ls)" by auto
  show "py_join sep ls \<noteq> []"
    using assms(1) h by (intro py_join_nonempty) (auto simp: wf_line_def)
  show "\<not> py_isspace (hd (py_join sep ls))"
    using assms(1) h wf_line_ends[OF h] by (cases ls) (auto simp: py_join_hd wf_line_def)
  show "\<not> py_isspace (last (py_join sep ls))"
    using assms(1) l wf_line_ends[OF l] by (simp add: py_join_last wf_line_def)
qed

lemma convert_line_wf:
  "wf_line l \<Longrightarrow> convert_line skip l =
     (if is_set l \<or> is_delete l then Inr (Some (Converted (swap_verb l)))
      else (case skip l of None \<Rightarrow> Inr (Some (Skipped l)) | Some msg \<Rightarrow> Inl (MarkupError msg)))"
  by (auto simp: wf_line_def convert_line_def is_set_def is_delete_def swap_verb_def)

lemma convert_lines_wf:
  "\<forall>l\<in>set ls. wf_line l \<and> (is_set l \<or> is_delete l \<or> skip l = None) \<Longrightarrow>
     convert_lines skip ls =
       Inr (map (\<lambda>l. if is_set l \<or> is_delete l then Converted (swap_verb l) else Skipped l) ls)"
  by (induction ls) (auto simp: convert_line_wf)

lemma converted_items:
  "List.map_filter (\<lambda>i. case i of Converted l \<Rightarrow> Some l | Skipped _ \<Rightarrow> None)
     (map (\<lambda>l. if P l then Converted (f l) else Skipped l) ls) = map f (filter P ls)"
  by (induction ls) (auto simp: List.map_filter_simps)

lemma skipped_items:
  "List.map_filter (\<lambda>i. case i of Skipped l \<Rightarrow> Some l | Converted _ \<Rightarrow> None)
     (map (\<lambda>l. if P l then Converted (f l) else Skipped l) ls) = filter (\<lambda>l. \<not> P l) ls"
  by (induction ls) (auto simp: List.map_filter_simps)

lemma convert_document:
  assumes "ls \<noteq> []" "\<forall>l\<in>set ls. wf_line l \<and> (is_set l \<or> is_delete l \<or> skip l = None)"
  shows "convert_set_to_delete skip (py_join [CHR 0x0A] ls) =
           Inr (py_join [CHR 0x0A] (map swap_verb (filter (\<lambda>l. is_set l \<or> is_delete l) ls)),
                filter (\<lambda>l. \<not> (is_set l \<or> is_delete l)) ls)"
proof -
  from assms(2) have wf: "\<forall>l\<in>set ls. wf_line l" by blast
  have 1: "py_strip (py_join [CHR 0x0A] ls) = py_join [CHR 0x0A] ls"
    using assms(1) wf by (rule strip_join_lines)
  have 2: "split_char (CHR 0x0A) (py_join [CHR 0x0A] ls) = ls"
    using assms(1) wf by (intro split_char_join) (auto simp: wf_line_def)
  have 3: "convert_lines skip ls =
           Inr (map (\<lambda>l. if is_set l \<or> is_delete l then Converted (swap_verb l) else Skipped l) ls)"
    using assms(2) by (rule convert_lines_wf)
  show ?thesis
    unfolding convert_set_to_delete_def 1 2 3 by (simp add: converted_items skipped_items)
qed

lemma py_lower_set: "py_lower ''set '' = ''set ''"
  by (simp add: py_lower_def py_lower_char_def upper_chars_def lower_chars_def)

lemma py_lower_delete: "py_lower ''delete '' = ''delete ''"
  by (simp add: py_lower_def py_lower_char_def upper_chars_def lower_chars_def)

lemma startswith_lower: "startswith l p \<Longrightarrow> py_lower p = p \<Longrightarrow> startswith (py_lower l) p"
  by (metis length_map py_lower_def startswith_def take_map)

lemma startswith_append: "startswith (p @ r) p"
  by (simp add: startswith_def)

lemma startswith_set_decomp: "startswith l ''set '' \<Longrightarrow> l = ''set '' @ drop 4 l"
proof -
  have "length ''set '' = 4" by simp
  then show "startswith l ''set '' \<Longrightarrow> l = ''set '' @ drop 4 l"
    by (metis append_take_drop_id startswith_def)
qed

lemma startswith_delete_decomp: "startswith l ''delete '' \<Longrightarrow> l = ''delete '' @ drop 7 l"
proof -
  have "length ''delete '' = 7" by simp
  then show "startswith l ''delete '' \<Longrightarrow> l = ''delete '' @ drop 7 l"
    by (metis append_take_drop_id startswith_def)
qed

lemma swap_verb_literal:
  assumes "wf_line l" "startswith l ''set '' \<or> startswith l ''delete ''"
  shows "swap_verb (swap_verb l) = l" "wf_line (swap_verb l)"
        "startswith (swap_verb l) ''set '' \<or> startswith (swap_verb l) ''delete ''"
        "is_set l \<or> is_delete l"
proof -
  from assms(2) have sd: "is_set l \<or> is_delete l"
    using startswith_lower py_lower_set py_lower_delete by (auto simp: is_set_def is_delete_def)
  then show "is_set l \<or> is_delete l" .
  from assms(1) have nsp: "\<not> py_isspace (last l)" and ne: "l \<noteq> []" and nn: "CHR 0x0A \<notin> set l"
    using wf_line_ends by (auto simp: wf_line_def)
  consider (s) "startswith l ''set ''" | (d) "startswith l ''delete ''" using assms(2) by blast
  then have "swap_verb (swap_verb l) = l \<and> wf_line (swap_verb l) \<and>
       (startswith (swap_verb l) ''set '' \<or> startswith (swap_verb l) ''delete '')"
  proof cases
    case s
    then have l: "l = ''set '' @ drop 4 l" by (rule startswith_set_decomp)
    have iss: "is_set l" using s startswith_lower py_lower_set by (auto simp: is_set_def)
    have r: "drop 4 l \<noteq> []"
    proof
      assume "drop 4 l = []"
      with l have "l = ''set ''" by simp
      with nsp show False by (simp add: py_isspace_def)
    qed
    let ?m = "''delete '' @ drop 4 l"
    have sv: "swap_verb l = ?m" using iss by (simp add: swap_verb_def)
    have low: "py_lower ?m = ''delete '' @ py_lower (drop 4 l)"
      using py_lower_delete by (simp add: py_lower_def)
    have "\<not> is_set ?m" unfolding is_set_def low by (simp add: startswith_def)
    then have "swap_verb ?m = ''set '' @ drop 4 l" by (simp add: swap_verb_def)
    then have a: "swap_verb (swap_verb l) = l" using sv l by simp
    have "last ?m = last l" using r l by (metis last_appendR)
    then have "py_strip ?m = ?m" using nsp by (intro py_strip_id) (auto simp: py_isspace_def)
    moreover have "CHR 0x0A \<notin> set ?m" using nn by (auto dest: in_set_dropD)
    ultimately have b: "wf_line (swap_verb l)" unfolding sv by (simp add: wf_line_def startswith_def)
    have c: "startswith (swap_verb l) ''delete ''" unfolding sv by (rule startswith_append)
    from a b c show ?thesis by blast
  next
    case d
    then have l: "l = ''delete '' @ drop 7 l" by (rule startswith_delete_decomp)
    have low: "py_lower l = ''delete '' @ py_lower (drop 7 l)"
      using py_lower_delete l by (metis map_append py_lower_def)
    have nis: "\<not> is_set l" unfolding is_set_def low by (simp add: startswith_def)
    have r: "drop 7 l \<noteq> []"
    proof
      assume "drop 7 l = []"
      with l have "l = ''delete ''" by simp
      with nsp show False by (simp add: py_isspace_def)
    qed
    let ?m = "''set '' @ drop 7 l"
    have sv: "swap_verb l = ?m" using nis by (simp add: swap_verb_def)
    have low2: "py_lower ?m = ''set '' @ py_lower (drop 7 l)"
      using py_lower_set by (simp add: py_lower_def)
    have "is_set ?m" unfolding is_set_def low2 by (simp add: startswith_def)
    then have "swap_verb ?m = ''delete '' @ drop 7 l" by (simp add: swap_verb_def)
    then have a: "swap_verb (swap_verb l) = l" using sv l by simp
    have "last ?m = last l" using r l by (metis last_appendR)
    then have "py_strip ?m = ?m" using nsp by (intro py_strip_id) (auto simp: py_isspace_def)
    moreover have "CHR 0x0A \<notin> set ?m" using nn by (auto dest: in_set_dropD)
    ultimately have b: "wf_line (swap_verb l)" unfolding sv by (simp add: wf_line_def startswith_def)
    have c: "startswith (swap_verb l) ''set ''" unfolding sv by (rule startswith_append)
    from a b c show ?thesis by blast
  qed
  then show "swap_verb (swap_verb l) = l" "wf_line (swap_verb l)"
        "startswith (swap_verb l) ''set '' \<or> startswith (swap_verb l) ''delete ''" by blast+
qed

text \<open>
  What holds of the conversion. For every document of trimmed, non-empty, non-comment
  lines on which the warning of every skipped line can be printed: every line that begins
  with \<open>set\<close> and a space (in any letter case) is output as \<open>delete\<close> followed by the rest
  of the line, every line that begins with \<open>delete\<close> and a space as \<open>set\<close> followed by
  the rest, in document order, and the lines with another verb are reported as skipped.
  When every line begins with lower-case \<open>set\<close> or \<open>delete\<close>, converting twice gives the
  document back.
\<close>

lemma rollback_conversion:
  assumes "ls \<noteq> []"
      and "\<forall>l\<in>set ls. wf_line l \<and> (is_set l \<or> is_delete l \<or> skip l = None)"
  shows "convert_set_to_delete skip (py_join [CHR 0x0A] ls) =
           Inr (py_join [CHR 0x0A] (map swap_verb (filter (\<lambda>l. is_set l \<or> is_delete l) ls)),
                filter (\<lambda>l. \<not> (is_set l \<or> is_delete l)) ls)"
  using assms by (rule convert_document)

lemma rollback_involution:
  assumes "ls \<noteq> []" and "\<forall>l\<in>set ls. wf_line l"
      and lit: "\<forall>l\<in>set ls. startswith l ''set '' \<or> startswith l ''delete ''"
  shows "\<exists>once. convert_set_to_delete skip (py_join [CHR 0x0A] ls) = Inr (once, [])
           \<and> convert_set_to_delete skip once = Inr (py_join [CHR 0x0A] ls, [])"
proof -
  have sd: "\<forall>l\<in>set ls. is_set l \<or> is_delete l"
    using assms(2) lit swap_verb_literal(4) by blast
  then have all: "filter (\<lambda>l. is_set l \<or> is_delete l) ls = ls"
    and none: "filter (\<lambda>l. \<not> (is_set l \<or> is_delete l)) ls = []"
    by (simp_all add: filter_id_conv filter_empty_conv)
  let ?ms = "map swap_verb ls"
  have sw: "wf_line (swap_verb l) \<and> (is_set (swap_verb l) \<or> is_delete (swap_verb l))"
    if "l \<in> set ls" for l
  proof -
    from that assms(2) lit have w: "wf_line l" and s: "startswith l ''set '' \<or> startswith l ''delete ''"
      by blast+
    note w2 = swap_verb_literal(2)[OF w s] and s2 = swap_verb_literal(3)[OF w s]
    from w2 swap_verb_literal(4)[OF w2 s2] show ?thesis by blast
  qed
  have ms: "?ms \<noteq> []" "\<forall>m\<in>set ?ms. wf_line m \<and> (is_set m \<or> is_delete m \<or> skip m = None)"
    using assms(1) sw by auto
  have all2: "filter (\<lambda>l. is_set l \<or> is_delete l) ?ms = ?ms"
    and none2: "filter (\<lambda>l. \<not> (is_set l \<or> is_delete l)) ?ms = []"
    using sw by (auto simp: filter_id_conv filter_empty_conv)
  have rt: "map swap_verb ?ms = ls"
    using assms(2) lit swap_verb_literal(1) by (simp add: map_idI)
  have h: "\<forall>l\<in>set ls. wf_line l \<and> (is_set l \<or> is_delete l \<or> skip l = None)"
    using assms(2) sd by blast
  have 1: "convert_set_to_delete skip (py_join [CHR 0x0A] ls) = Inr (py_join [CHR 0x0A] ?ms, [])"
    using convert_document[OF assms(1) h] all none by simp
  have 2: "convert_set_to_delete skip (py_join [CHR 0x0A] ?ms) = Inr (py_join [CHR 0x0A] ls, [])"
    using convert_document[OF ms] all2 none2 rt by simp
  from 1 2 show ?thesis by blast
qed

section \<open>Facts about syntax validation\<close>

lemma validate_line_extends:
  "\<exists>new. fst (validate_line n l st) = fst st @ new"
  by (cases st) (auto simp: validate_line_def validate_set_command_syntax_def Let_def)

lemma validate_lines_keeps:
  "e \<in> set (fst st) \<Longrightarrow> e \<in> set (fst (validate_lines n ls st))"
proof (induction ls arbitrary: n st)
  case Nil
  then show ?case by simp
next
  case (Cons l ls)
  obtain new where "fst (validate_line n l st) = fst st @ new"
    using validate_line_extends by blast
  with Cons.prems have "e \<in> set (fst (validate_line n l st))" by simp
  then show ?case using Cons.IH by simp
qed

lemma validate_line_set_unbalanced:
  assumes "py_strip line \<noteq> []" "py_lower (hd (py_split line)) = ''set''" "unbalanced line"
  shows "\<exists>e\<in>set (fst (validate_line n line st)). error_line e = n"
proof -
  have v: "''set'' \<in> set valid_set_commands" by (simp add: valid_set_commands_def)
  obtain es ws where st: "st = (es, ws)" by (cases st)
  show ?thesis using assms v unfolding st
    by (auto simp: validate_line_def validate_set_command_syntax_def Let_def unbalanced_def)
qed

lemma validate_lines_set_unbalanced:
  assumes "i < length ls" "py_strip (ls ! i) \<noteq> []" "py_lower (hd (py_split (ls ! i))) = ''set''"
          "unbalanced (ls ! i)"
  shows "\<exists>e\<in>set (fst (validate_lines n ls st)). error_line e = n + i"
  using assms
proof (induction ls arbitrary: i n st)
  case Nil
  then show ?case by simp
next
  case (Cons l ls)
  show ?case
  proof (cases i)
    case 0
    with Cons.prems obtain e where "e \<in> set (fst (validate_line n l st))" "error_line e = n"
      using validate_line_set_unbalanced[of l n st] by auto
    then show ?thesis using validate_lines_keeps 0 by fastforce
  next
    case (Suc j)
    with Cons.prems have "\<exists>e\<in>set (fst (validate_lines (Suc n) ls (validate_line n l st))). error_line e = Suc n + j"
      by (intro Cons.IH) auto
    then show ?thesis using Suc by simp
  qed
qed

lemma other_verbs_unchecked:
  assumes "py_strip l \<noteq> []" "py_lower (hd (py_split l)) \<in> set valid_set_commands"
          "py_lower (hd (py_split l)) \<noteq> ''set''"
  shows "validate_line n l st = st"
  using assms by (cases st) (simp add: validate_line_def Let_def)

text \<open>
  Claim C3, as amended. For every document and every line of it whose first word is
  \<open>set\<close> (in any letter case): an odd number of double quotes, or different numbers of
  opening and closing square brackets, on that line is a hard error. Validation collects
  an error for that line and raises (the \<^verbatim>\<open>ValueError\<close> with the collected errors when
  the console prints the error panel), and the validator returns no cleaned document for
  any file whose text, read and cleaned, is that document. A line whose first word is one
  of the other valid verbs (delete, activate, deactivate, protect, unprotect) is not
  checked for quotes or brackets: it adds no error and no warning.
\<close>

theorem set_line_quote_bracket_error:
  assumes "i < length (split_char (CHR 0x0A) content)"
      and "line = split_char (CHR 0x0A) content ! i"
      and "py_strip line \<noteq> []"
      and "py_lower (hd (py_split line)) = ''set''"
      and "count_list line (CHR 0x22) mod 2 \<noteq> 0
           \<or> count_list line (CHR ''['') \<noteq> count_list line (CHR '']'')"
  shows "(\<exists>e\<in>set (fst (validate_lines 1 (split_char (CHR 0x0A) content) ([], []))).
            error_line e = Suc i)
         \<and> (\<exists>err. validate_config_syntax con content = Inl err)
         \<and> (errors_panel_error con (fst (validate_lines 1 (split_char (CHR 0x0A) content) ([], [])))
               = None
              \<longrightarrow> validate_config_syntax con content
                    = Inl (ValidationFailed
                             (fst (validate_lines 1 (split_char (CHR 0x0A) content) ([], [])))))
         \<and> (\<forall>files path raw.
               files path = Content raw \<and> clean_config_content (universal_newlines raw) = content
               \<longrightarrow> (\<exists>err. validate_and_clean_config con files path = Inl err))
         \<and> (\<forall>n l st.
               py_strip l \<noteq> [] \<and> py_lower (hd (py_split l)) \<in> set valid_set_commands
               \<and> py_lower (hd (py_split l)) \<noteq> ''set''
               \<longrightarrow> validate_line n l st = st)"
proof -
  let ?r = "validate_lines 1 (split_char (CHR 0x0A) content) ([], [])"
  have "\<exists>e\<in>set (fst ?r). error_line e = 1 + i"
    using assms by (intro validate_lines_set_unbalanced) (auto simp: unbalanced_def)
  then have 1: "\<exists>e\<in>set (fst ?r). error_line e = Suc i" by simp
  then have ne: "fst ?r \<noteq> []" by auto
  have 2: "\<exists>err. validate_config_syntax con content = Inl err"
    using ne by (cases "errors_panel_error con (fst ?r)")
                (simp_all add: validate_config_syntax_def split_beta)
  have 3: "errors_panel_error con (fst ?r) = None
             \<longrightarrow> validate_config_syntax con content = Inl (ValidationFailed (fst ?r))"
    using ne by (simp add: validate_config_syntax_def split_beta)
  have 4: "\<forall>files path raw.
               files path = Content raw \<and> clean_config_content (universal_newlines raw) = content
               \<longrightarrow> (\<exists>err. validate_and_clean_config con files path = Inl err)"
  proof (intro allI impI)
    fix files :: "string \<Rightarrow> file_state" and path raw
    assume a: "files path = Content raw \<and> clean_config_content (universal_newlines raw) = content"
    from 2 obtain err where err: "validate_config_syntax con content = Inl err" ..
    show "\<exists>err. validate_and_clean_config con files path = Inl err"
      using a err
      by (cases "banner_error con path") (simp_all add: validate_and_clean_config_def Let_def)
  qed
  have 5: "\<forall>n l st.
               py_strip l \<noteq> [] \<and> py_lower (hd (py_split l)) \<in> set valid_set_commands
               \<and> py_lower (hd (py_split l)) \<noteq> ''set''
               \<longrightarrow> validate_line n l st = st"
    using other_verbs_unchecked by blast
  from 1 2 3 4 5 show ?thesis by blast
qed

theorem set_line_quote_bracket_error_witness:
  "(0::nat) < length (split_char (CHR 0x0A) (''set system host-name '' @ [CHR 0x22] @ ''r1''))
   \<and> py_strip (''set system host-name '' @ [CHR 0x22] @ ''r1'') \<noteq> []
   \<and> py_lower (hd (py_split (''set system host-name '' @ [CHR 0x22] @ ''r1''))) = ''set''
   \<and> count_list (''set system host-name '' @ [CHR 0x22] @ ''r1'') (CHR 0x22) mod 2 \<noteq> 0
   \<and> validate_config_syntax quiet_console (''set system host-name '' @ [CHR 0x22] @ ''r1'')
        = Inl (ValidationFailed [UnmatchedQuotes 1])
   \<and> (\<exists>err. validate_and_clean_config quiet_console
                (\<lambda>path. Content (''set  system host-name '' @ [CHR 0x22] @ ''r1'' @ [CHR 0x0D, CHR 0x0A]))
                ''router.set'' = Inl err)
   \<and> py_strip (''delete system host-name '' @ [CHR 0x22] @ ''r1'') \<noteq> []
   \<and> py_lower (hd (py_split (''delete system host-name '' @ [CHR 0x22] @ ''r1''))) = ''delete''
   \<and> validate_line 1 (''delete system host-name '' @ [CHR 0x22] @ ''r1'') ([], []) = ([], [])"
proof -
  let ?c = "''set system host-name '' @ [CHR 0x22] @ ''r1''"
  let ?raw = "''set  system host-name '' @ [CHR 0x22] @ ''r1'' @ [CHR 0x0D, CHR 0x0A]"
  let ?d = "''delete system host-name '' @ [CHR 0x22] @ ''r1''"
  have h1: "0 < length (split_char (CHR 0x0A) ?c)" by code_simp
  have h2: "?c = split_char (CHR 0x0A) ?c ! 0" by code_simp
  have h3: "py_strip ?c \<noteq> []" by code_simp
  have h4: "py_lower (hd (py_split ?c)) = ''set''" by code_simp
  have q: "count_list ?c (CHR 0x22) mod 2 \<noteq> 0" by code_simp
  then have h5: "count_list ?c (CHR 0x22) mod 2 \<noteq> 0
           \<or> count_list ?c (CHR ''['') \<noteq> count_list ?c (CHR '']'')" ..
  have c: "clean_config_content (universal_newlines ?raw) = ?c" by code_simp
  have r: "fst (validate_lines 1 (split_char (CHR 0x0A) ?c) ([], [])) = [UnmatchedQuotes 1]"
    by code_simp
  have p: "errors_panel_error quiet_console [UnmatchedQuotes 1] = None"
    by (simp add: quiet_console_def)
  have d1: "py_strip ?d \<noteq> []" by code_simp
  have d2: "py_lower (hd (py_split ?d)) = ''delete''" by code_simp
  have d3: "py_lower (hd (py_split ?d)) \<in> set valid_set_commands" by code_simp
  have d4: "py_lower (hd (py_split ?d)) \<noteq> ''set''" by code_simp
  note t = set_line_quote_bracket_error [OF h1 h2 h3 h4 h5, of quiet_console]
  note t3 = t [THEN conjunct2, THEN conjunct2, THEN conjunct1]
  note t4 = t [THEN conjunct2, THEN conjunct2, THEN conjunct2, THEN conjunct1]
  note t5 = t [THEN conjunct2, THEN conjunct2, THEN conjunct2, THEN conjunct2]
  have v: "validate_config_syntax quiet_console ?c = Inl (ValidationFailed [UnmatchedQuotes 1])"
    using t3 p unfolding r by (rule mp)
  have "(\<lambda>path. Content ?raw) ''router.set'' = Content ?raw
          \<and> clean_config_content (universal_newlines ?raw) = ?c"
    using c by (intro conjI) (rule refl)
  with t4 [rule_format, of "\<lambda>path. Content ?raw" "''router.set''" ?raw]
  have e: "\<exists>err. validate_and_clean_config quiet_console (\<lambda>path. Content ?raw) ''router.set'' = Inl err" .
  from d1 d3 d4 have "py_strip ?d \<noteq> [] \<and> py_lower (hd (py_split ?d)) \<in> set valid_set_commands
      \<and> py_lower (hd (py_split ?d)) \<noteq> ''set''" by (intro conjI)
  with t5 [rule_format, of ?d 1 "([], [])"] have u: "validate_line 1 ?d ([], []) = ([], [])" .
  show ?thesis using h1 h3 h4 q v e d1 d2 u by (intro conjI)
qed

text \<open>
  The claim as written (``regardless of the line's verb'') fails: a \<open>delete\<close> line with
  one double quote, and an \<open>activate\<close> line with an unmatched bracket, are accepted.
\<close>

theorem quote_bracket_other_verb_counterexample:
  "validate_config_syntax quiet_console (''delete system host-name '' @ [CHR 0x22] @ ''r1'') = Inr []
   \<and> validate_and_clean_config quiet_console
         (\<lambda>path. Content (''delete system host-name '' @ [CHR 0x22] @ ''r1'' @ [CHR 0x0A]))
         ''router.set''
       = Inr (''delete system host-name '' @ [CHR 0x22] @ ''r1'')
   \<and> count_list (''delete system host-name '' @ [CHR 0x22] @ ''r1'') (CHR 0x22) = 1
   \<and> validate_and_clean_config quiet_console
         (\<lambda>path. Content (''activate interfaces [ ge-0/0/0'' @ [CHR 0x0A])) ''router.set''
       = Inr ''activate interfaces [ ge-0/0/0''"
  by code_simp
section \<open>Group validation\<close>




section \<open>The pending-configuration check: theorems\<close>


lemma could_not_check_not_True: "could_not_check con d msg \<noteq> Inr True"
  by (simp add: could_not_check_def split: option.splits)

lemma check_pending_open_fails:
  "dev_open w Pending d = Inl e \<Longrightarrow>
     check_pending_config w con d = could_not_check con d (exn_message e)"
  by (simp add: check_pending_config_def)

lemma check_pending_candidate_fails:
  "dev_open w Pending d = Inr u \<Longrightarrow> dev_get_config w Pending d Candidate = Inl e \<Longrightarrow>
     check_pending_config w con d = could_not_check con d (exn_message e)"
  by (simp add: check_pending_config_def)

lemma check_pending_committed_fails:
  "dev_open w Pending d = Inr u \<Longrightarrow> dev_get_config w Pending d Candidate = Inr (Some t) \<Longrightarrow>
   dev_get_config w Pending d Committed = Inl e \<Longrightarrow>
     check_pending_config w con d = could_not_check con d (exn_message e)"
  by (simp add: check_pending_config_def)

lemma check_pending_no_text:
  "dev_open w Pending d = Inr u \<Longrightarrow>
   dev_get_config w Pending d Candidate = Inr None \<or>
   (dev_get_config w Pending d Candidate = Inr (Some t) \<and>
    dev_get_config w Pending d Committed = Inr None) \<Longrightarrow>
     check_pending_config w con d = could_not_check con d none_splitlines_message"
  by (auto simp add: check_pending_config_def)

lemma check_pending_read:
  "dev_open w Pending d = Inr u \<Longrightarrow> dev_get_config w Pending d Candidate = Inr (Some t1) \<Longrightarrow>
   dev_get_config w Pending d Committed = Inr (Some t2) \<Longrightarrow>
     check_pending_config w con d =
       (if py_splitlines t1 \<noteq> [] \<and> py_splitlines t2 \<noteq> [] then
          (if \<not> set (py_splitlines t1) \<subseteq> set (py_splitlines t2) then
             (case pending_found_error con d of
                None \<Rightarrow> Inr True
              | Some m \<Rightarrow> could_not_check con d m)
           else Inr False)
        else (case no_pending_error con d of
                None \<Rightarrow> Inr False
              | Some m \<Rightarrow> could_not_check con d m))"
  by (simp add: check_pending_config_def Let_def)

lemma check_pending_True_iff:
  "check_pending_config w con d = Inr True \<longleftrightarrow>
     (\<exists>t1 t2. dev_open w Pending d = Inr () \<and>
        dev_get_config w Pending d Candidate = Inr (Some t1) \<and>
        dev_get_config w Pending d Committed = Inr (Some t2) \<and>
        py_splitlines t1 \<noteq> [] \<and> py_splitlines t2 \<noteq> [] \<and>
        \<not> set (py_splitlines t1) \<subseteq> set (py_splitlines t2) \<and>
        pending_found_error con d = None)"
proof (cases "dev_open w Pending d")
  case (Inl e)
  then show ?thesis
    by (simp add: check_pending_open_fails could_not_check_not_True)
next
  case (Inr u)
  note op = this
  show ?thesis
  proof (cases "dev_get_config w Pending d Candidate")
    case (Inl e)
    then show ?thesis using op
      by (simp add: check_pending_candidate_fails could_not_check_not_True)
  next
    case (Inr c)
    note cand = this
    show ?thesis
    proof (cases c)
      case None
      then show ?thesis using op cand
        by (simp add: check_pending_no_text could_not_check_not_True)
    next
      case (Some t1)
      note c = this
      show ?thesis
      proof (cases "dev_get_config w Pending d Committed")
        case (Inl e)
        then show ?thesis using op cand c
          by (simp add: check_pending_committed_fails could_not_check_not_True)
      next
        case (Inr k)
        show ?thesis
        proof (cases k)
          case None
          then show ?thesis using op cand c Inr
            by (simp add: check_pending_no_text[where t = t1] could_not_check_not_True)
        next
          case (Some t2)
          then show ?thesis using op cand c Inr
            by (simp add: check_pending_read could_not_check_not_True split: option.splits)
        qed
      qed
    qed
  qed
qed

lemma collect_pending_none:
  "\<forall>p\<in>set rs. snd p = Inr False \<Longrightarrow> collect_pending rs = Inr []"
  by (induction rs) auto

lemma validate_device_state_proceeds:
  assumes "\<forall>device\<in>set devices. check_device w con device = Inr False"
  shows "validate_device_state w con devices = Inr True"
proof -
  have "collect_pending (map (\<lambda>device. (device, check_device w con device)) devices) = Inr []"
    using assms by (intro collect_pending_none) auto
  then show ?thesis by (simp add: validate_device_state_def)
qed


text \<open>
  Claim C9. In \<^verbatim>\<open>_check_pending_config\<close> every exception raised by opening the session or
  by reading the candidate or the committed configuration reaches the handler, which
  prints a warning and returns \<^verbatim>\<open>False\<close>; an empty line collection on either side gives
  \<^verbatim>\<open>False\<close> as well; \<^verbatim>\<open>True\<close> is returned only when both reads succeed, both are
  non-empty and the candidate holds a line the committed configuration lacks; when
  every device's check returns \<^verbatim>\<open>False\<close>, \<^verbatim>\<open>_validate_device_state\<close> returns \<^verbatim>\<open>True\<close>
  and the run goes on. The warning of the handler holds the message of the exception as
  Rich markup: when it cannot be printed, the check raises \<^verbatim>\<open>MarkupError\<close> instead of
  returning \<^verbatim>\<open>False\<close>.
\<close>

theorem pending_check_fail_open:
  "(\<forall>e. dev_open w Pending d = Inl e
          \<or> (dev_open w Pending d = Inr () \<and> dev_get_config w Pending d Candidate = Inl e)
          \<or> (dev_open w Pending d = Inr ()
              \<and> (\<exists>t. dev_get_config w Pending d Candidate = Inr (Some t))
              \<and> dev_get_config w Pending d Committed = Inl e)
        \<longrightarrow> check_pending_config w con d =
              (case could_not_check_error con d (exn_message e) of
                 None \<Rightarrow> Inr False
               | Some m \<Rightarrow> Inl (MarkupError m)))
   \<and> (\<forall>t1 t2. dev_open w Pending d = Inr ()
          \<and> dev_get_config w Pending d Candidate = Inr (Some t1)
          \<and> dev_get_config w Pending d Committed = Inr (Some t2)
          \<and> (py_splitlines t1 = [] \<or> py_splitlines t2 = [])
        \<longrightarrow> check_pending_config w con d =
              (case no_pending_error con d of
                 None \<Rightarrow> Inr False
               | Some m \<Rightarrow>
                   (case could_not_check_error con d m of
                      None \<Rightarrow> Inr False
                    | Some m' \<Rightarrow> Inl (MarkupError m'))))
   \<and> (check_pending_config w con d = Inr True \<longleftrightarrow>
        (\<exists>t1 t2. dev_open w Pending d = Inr ()
           \<and> dev_get_config w Pending d Candidate = Inr (Some t1)
           \<and> dev_get_config w Pending d Committed = Inr (Some t2)
           \<and> py_splitlines t1 \<noteq> [] \<and> py_splitlines t2 \<noteq> []
           \<and> set (py_splitlines t1) - set (py_splitlines t2) \<noteq> {}
           \<and> pending_found_error con d = None))
   \<and> ((\<forall>device\<in>set devices. checking_task_error con device = None
                            \<and> check_pending_config w con device = Inr False)
        \<longrightarrow> validate_device_state w con devices = Inr True)"
proof (intro conjI allI impI)
  fix e
  assume "dev_open w Pending d = Inl e
          \<or> (dev_open w Pending d = Inr () \<and> dev_get_config w Pending d Candidate = Inl e)
          \<or> (dev_open w Pending d = Inr ()
              \<and> (\<exists>t. dev_get_config w Pending d Candidate = Inr (Some t))
              \<and> dev_get_config w Pending d Committed = Inl e)"
  then have "check_pending_config w con d = could_not_check con d (exn_message e)"
    using check_pending_open_fails check_pending_candidate_fails check_pending_committed_fails
    by blast
  then show "check_pending_config w con d =
              (case could_not_check_error con d (exn_message e) of
                 None \<Rightarrow> Inr False
               | Some m \<Rightarrow> Inl (MarkupError m))"
    by (simp add: could_not_check_def)
next
  fix t1 t2
  assume "dev_open w Pending d = Inr ()
          \<and> dev_get_config w Pending d Candidate = Inr (Some t1)
          \<and> dev_get_config w Pending d Committed = Inr (Some t2)
          \<and> (py_splitlines t1 = [] \<or> py_splitlines t2 = [])"
  then show "check_pending_config w con d =
              (case no_pending_error con d of
                 None \<Rightarrow> Inr False
               | Some m \<Rightarrow>
                   (case could_not_check_error con d m of
                      None \<Rightarrow> Inr False
                    | Some m' \<Rightarrow> Inl (MarkupError m')))"
    by (auto simp add: check_pending_read could_not_check_def split: option.splits)
next
  show "check_pending_config w con d = Inr True \<longleftrightarrow>
        (\<exists>t1 t2. dev_open w Pending d = Inr ()
           \<and> dev_get_config w Pending d Candidate = Inr (Some t1)
           \<and> dev_get_config w Pending d Committed = Inr (Some t2)
           \<and> py_splitlines t1 \<noteq> [] \<and> py_splitlines t2 \<noteq> []
           \<and> set (py_splitlines t1) - set (py_splitlines t2) \<noteq> {}
           \<and> pending_found_error con d = None)"
    by (simp add: check_pending_True_iff)
next
  assume "\<forall>device\<in>set devices. checking_task_error con device = None
                            \<and> check_pending_config w con device = Inr False"
  then have "\<forall>device\<in>set devices. check_device w con device = Inr False"
    by (simp add: check_device_def)
  then show "validate_device_state w con devices = Inr True"
    by (rule validate_device_state_proceeds)
qed

lemma unreadable_world_reads:
  "dev_open unreadable_world Pending d = Inr ()"
  "dev_get_config unreadable_world Pending d Candidate = Inl (JunosError unreadable_message)"
  by (simp_all add: unreadable_world_def steady_world_def)

theorem pending_check_fail_open_witness:
  "check_pending_config unreadable_world quiet_state_console ''10.0.0.1'' = Inr False
   \<and> check_pending_config unreadable_world strict_state_console ''10.0.0.1''
       = Inl (MarkupError closing_tag_message)
   \<and> validate_device_state unreadable_world quiet_state_console [''10.0.0.1'', ''10.0.0.2'']
       = Inr True"
proof -
  note fact = pending_check_fail_open [where w = unreadable_world]
  have q: "check_pending_config unreadable_world quiet_state_console d = Inr False" for d
    using fact [where con = quiet_state_console and d = d, THEN conjunct1, rule_format,
                where e = "JunosError unreadable_message"]
    by (simp add: unreadable_world_reads quiet_state_console_def)
  have s: "check_pending_config unreadable_world strict_state_console ''10.0.0.1''
             = Inl (MarkupError closing_tag_message)"
    using fact [where con = strict_state_console and d = "''10.0.0.1''", THEN conjunct1,
                rule_format, where e = "JunosError unreadable_message"]
    by (simp add: unreadable_world_reads strict_state_console_def quiet_state_console_def)
  have h: "\<forall>device\<in>set [''10.0.0.1'', ''10.0.0.2''].
             checking_task_error quiet_state_console device = None
             \<and> check_pending_config unreadable_world quiet_state_console device = Inr False"
    by (simp add: q) (simp add: quiet_state_console_def)
  have v: "validate_device_state unreadable_world quiet_state_console
             [''10.0.0.1'', ''10.0.0.2''] = Inr True"
    using fact [where con = quiet_state_console and devices = "[''10.0.0.1'', ''10.0.0.2'']",
                THEN conjunct2, THEN conjunct2, THEN conjunct2, THEN mp, OF h] .
  from q s v show ?thesis by simp
qed

section \<open>Facts about the similarity pass\<close>

lemma best_match_step_good:
  "good_best ratio line1 m2 L st \<Longrightarrow> line2 \<in> L \<Longrightarrow>
     good_best ratio line1 m2 L (best_match_step ratio line1 m2 st line2)"
  by (cases st) (auto simp: good_best_def best_match_step_def Let_def split: option.splits)

lemma foldl_best_match_good:
  "good_best ratio line1 m2 L st \<Longrightarrow> set xs \<subseteq> L \<Longrightarrow>
     good_best ratio line1 m2 L (foldl (best_match_step ratio line1 m2) st xs)"
proof (induction xs arbitrary: st)
  case Nil
  then show ?case by simp
next
  case (Cons x xs)
  have "good_best ratio line1 m2 L (best_match_step ratio line1 m2 st x)"
    using Cons.prems by (intro best_match_step_good) auto
  then have "good_best ratio line1 m2 L
      (foldl (best_match_step ratio line1 m2) (best_match_step ratio line1 m2 st x) xs)"
    using Cons.prems by (intro Cons.IH) auto
  then show ?case by simp
qed

lemma find_best_match_good:
  "good_best ratio line1 m2 (set list2) (find_best_match ratio line1 m2 list2)"
  unfolding find_best_match_def
  by (rule foldl_best_match_good) (auto simp: good_best_def)

lemma similar_step_inv:
  assumes "pairs_inv ratio L1 (set list2) st" "line1 \<notin> L1"
  shows "pairs_inv ratio (insert line1 L1) (set list2) (similar_step ratio list2 st line1)"
proof -
  obtain ps m1 m2 where st: "st = (ps, m1, m2)" by (cases st)
  obtain bm br where fb: "find_best_match ratio line1 m2 list2 = (bm, br)" by fastforce
  have g: "good_best ratio line1 m2 (set list2) (bm, br)"
    using find_best_match_good[of ratio line1 m2 list2] fb by simp
  from assms(1) have inv: "m1 = fst ` set ps" "m2 = snd ` set ps"
    "distinct (map fst ps)" "distinct (map snd ps)"
    "\<forall>(a, b)\<in>set ps. a \<in> L1 \<and> b \<in> set list2 \<and> 0.85 \<le> ratio a b \<and> ratio a b < 1 \<and> a \<noteq> b"
    unfolding st pairs_inv_def by auto
  have weak: "pairs_inv ratio (insert line1 L1) (set list2) (ps, m1, m2)"
    using inv unfolding pairs_inv_def by auto
  show ?thesis
  proof (cases bm)
    case None
    then show ?thesis using weak by (simp add: similar_step_def st fb)
  next
    case (Some m)
    show ?thesis
    proof (cases "m \<noteq> [] \<and> br \<ge> 0.85")
      case False
      then show ?thesis using weak Some by (auto simp: similar_step_def st fb)
    next
      case True
      from g Some have m: "m \<in> set list2" "m \<notin> m2" "0.85 \<le> ratio line1 m" "ratio line1 m < 1"
        "line1 \<noteq> m" by (auto simp: good_best_def)
      have l1: "line1 \<notin> fst ` set ps" using inv(5) assms(2) by fastforce
      have step: "similar_step ratio list2 st line1 = (ps @ [(line1, m)], insert line1 m1, insert m m2)"
        using True Some by (simp add: similar_step_def st fb)
      show ?thesis unfolding step pairs_inv_def
        using inv m l1 by auto
    qed
  qed
qed

lemma foldl_similar_step_inv:
  "pairs_inv ratio L1 (set list2) st \<Longrightarrow> distinct xs \<Longrightarrow> set xs \<inter> L1 = {} \<Longrightarrow>
     pairs_inv ratio (L1 \<union> set xs) (set list2) (foldl (similar_step ratio list2) st xs)"
proof (induction xs arbitrary: st L1)
  case Nil
  then show ?case by simp
next
  case (Cons x xs)
  have "pairs_inv ratio (insert x L1) (set list2) (similar_step ratio list2 st x)"
    using Cons.prems by (intro similar_step_inv) auto
  then have "pairs_inv ratio (insert x L1 \<union> set xs) (set list2)
           (foldl (similar_step ratio list2) (similar_step ratio list2 st x) xs)"
    using Cons.prems by (intro Cons.IH) auto
  then show ?case by simp
qed

lemma find_similar_lines_advanced_inv:
  assumes "enumerates enum lines1" "enumerates enum lines2"
      and "find_similar_lines_advanced ratio enum lines1 lines2 = (similar_pairs, u1, u2)"
  shows "distinct (map fst similar_pairs)" "distinct (map snd similar_pairs)"
        "u1 = lines1 - fst ` set similar_pairs" "u2 = lines2 - snd ` set similar_pairs"
        "\<forall>(a, b)\<in>set similar_pairs.
            a \<in> lines1 \<and> b \<in> lines2 \<and> 0.85 \<le> ratio a b \<and> ratio a b < 1 \<and> a \<noteq> b"
proof -
  let ?r = "foldl (similar_step ratio (enum lines2)) ([], {}, {}) (enum lines1)"
  obtain ps m1 m2 where r: "?r = (ps, m1, m2)" by (cases ?r)
  have "pairs_inv ratio ({} \<union> set (enum lines1)) (set (enum lines2)) ?r"
    using assms(1) by (intro foldl_similar_step_inv) (auto simp: pairs_inv_def enumerates_def)
  then have inv: "pairs_inv ratio lines1 lines2 (ps, m1, m2)"
    using assms(1,2) r by (simp add: enumerates_def)
  from assms(3) r have eq: "similar_pairs = ps" "u1 = lines1 - m1" "u2 = lines2 - m2"
    by (auto simp: find_similar_lines_advanced_def Let_def)
  from inv show "distinct (map fst similar_pairs)" "distinct (map snd similar_pairs)"
        "u1 = lines1 - fst ` set similar_pairs" "u2 = lines2 - snd ` set similar_pairs"
        "\<forall>(a, b)\<in>set similar_pairs.
            a \<in> lines1 \<and> b \<in> lines2 \<and> 0.85 \<le> ratio a b \<and> ratio a b < 1 \<and> a \<noteq> b"
    unfolding eq pairs_inv_def by auto
qed


lemma compare_line_sets_unfold:
  assumes "compare_line_sets ratio enum results1 results2 = (u1, u2, similar_pairs, common, total1, total2)"
  shows "common = set results1 \<inter> set results2" "total1 = card (set results1)"
        "total2 = card (set results2)"
        "find_similar_lines_advanced ratio enum (set results1 - set results2)
            (set results2 - set results1) = (similar_pairs, u1, u2)"
proof -
  have d: "set results1 - set results1 \<inter> set results2 = set results1 - set results2"
          "set results2 - set results1 \<inter> set results2 = set results2 - set results1" by auto
  obtain ps a b where f: "find_similar_lines_advanced ratio enum (set results1 - set results2)
            (set results2 - set results1) = (ps, a, b)" by (metis prod_cases3)
  from assms show "common = set results1 \<inter> set results2" "total1 = card (set results1)"
        "total2 = card (set results2)"
        "find_similar_lines_advanced ratio enum (set results1 - set results2)
            (set results2 - set results1) = (similar_pairs, u1, u2)"
    unfolding compare_line_sets_def Let_def d f by auto
qed

text \<open>
  Claim C4. In the similarity pass of the compare operation, for every two retrieved line
  lists and every order in which the remainder sets are listed: a pair is accepted as
  similar only if its ratio \<open>r\<close> satisfies \<open>0.85 \<le> r < 1.0\<close> and its two lines differ;
  the lines the two devices share are the common lines (set intersection) and occur in no
  similar pair; a pair with ratio exactly 1.0, and a pair with ratio below 0.85, is never
  a similar pair.
\<close>

theorem similarity_threshold:
  assumes "enumerates enum (set results1 - set results2)"
      and "enumerates enum (set results2 - set results1)"
      and "compare_line_sets ratio enum results1 results2
             = (u1, u2, similar_pairs, common, total1, total2)"
  shows "common = set results1 \<inter> set results2
         \<and> (\<forall>(l1, l2)\<in>set similar_pairs.
               0.85 \<le> ratio l1 l2 \<and> ratio l1 l2 < 1.0 \<and> l1 \<noteq> l2
               \<and> l1 \<notin> common \<and> l2 \<notin> common)
         \<and> (\<forall>l1 l2. ratio l1 l2 = 1.0 \<or> ratio l1 l2 < 0.85 \<longrightarrow> (l1, l2) \<notin> set similar_pairs)"
proof -
  note u = compare_line_sets_unfold[OF assms(3)]
  have p: "\<forall>(a, b)\<in>set similar_pairs.
            a \<in> set results1 - set results2 \<and> b \<in> set results2 - set results1
            \<and> 0.85 \<le> ratio a b \<and> ratio a b < 1 \<and> a \<noteq> b"
    using find_similar_lines_advanced_inv(5)[OF assms(1,2) u(4)] .
  have 1: "\<forall>(l1, l2)\<in>set similar_pairs.
               0.85 \<le> ratio l1 l2 \<and> ratio l1 l2 < 1.0 \<and> l1 \<noteq> l2
               \<and> l1 \<notin> common \<and> l2 \<notin> common"
    using p u(1) by fastforce
  have 2: "\<forall>l1 l2. ratio l1 l2 = 1.0 \<or> ratio l1 l2 < 0.85 \<longrightarrow> (l1, l2) \<notin> set similar_pairs"
    using p by fastforce
  from u(1) 1 2 show ?thesis by blast
qed

theorem similarity_threshold_witness:
  "enumerates (enum_by [''set vlan 10'', ''set vlan 20''])
       (set [''set vlan 10'', ''set ip 1.1.1.1/24''] - set [''set vlan 20'', ''set ip 1.1.1.1/24''])
   \<and> enumerates (enum_by [''set vlan 10'', ''set vlan 20''])
       (set [''set vlan 20'', ''set ip 1.1.1.1/24''] - set [''set vlan 10'', ''set ip 1.1.1.1/24''])
   \<and> compare_line_sets position_ratio (enum_by [''set vlan 10'', ''set vlan 20''])
         [''set vlan 10'', ''set ip 1.1.1.1/24''] [''set vlan 20'', ''set ip 1.1.1.1/24'']
       = ({}, {}, [(''set vlan 10'', ''set vlan 20'')], {''set ip 1.1.1.1/24''}, 2, 2)
   \<and> 0.85 \<le> position_ratio ''set vlan 10'' ''set vlan 20''
   \<and> position_ratio ''set vlan 10'' ''set vlan 20'' < 1.0
   \<and> ''set vlan 10'' \<noteq> ''set vlan 20''
   \<and> ''set vlan 10'' \<notin> {''set ip 1.1.1.1/24''} \<and> ''set vlan 20'' \<notin> {''set ip 1.1.1.1/24''}"
proof -
  let ?e = "enum_by [''set vlan 10'', ''set vlan 20'']"
  let ?r1 = "[''set vlan 10'', ''set ip 1.1.1.1/24'']"
  let ?r2 = "[''set vlan 20'', ''set ip 1.1.1.1/24'']"
  have h1: "enumerates ?e (set ?r1 - set ?r2)" by code_simp
  have h2: "enumerates ?e (set ?r2 - set ?r1)" by code_simp
  have h3: "compare_line_sets position_ratio ?e ?r1 ?r2
       = ({}, {}, [(''set vlan 10'', ''set vlan 20'')], {''set ip 1.1.1.1/24''}, 2, 2)"
    by code_simp
  from similarity_threshold [OF h1 h2 h3]
  have "\<forall>(l1, l2)\<in>set [(''set vlan 10'', ''set vlan 20'')].
          0.85 \<le> position_ratio l1 l2 \<and> position_ratio l1 l2 < 1.0 \<and> l1 \<noteq> l2
          \<and> l1 \<notin> {''set ip 1.1.1.1/24''} \<and> l2 \<notin> {''set ip 1.1.1.1/24''}"
    by blast
  then have "0.85 \<le> position_ratio ''set vlan 10'' ''set vlan 20''
     \<and> position_ratio ''set vlan 10'' ''set vlan 20'' < 1.0
     \<and> ''set vlan 10'' \<noteq> ''set vlan 20''
     \<and> ''set vlan 10'' \<notin> {''set ip 1.1.1.1/24''} \<and> ''set vlan 20'' \<notin> {''set ip 1.1.1.1/24''}"
    by simp
  with h1 h2 h3 show ?thesis by blast
qed

text \<open>
  Claim C5. For every two line lists fed to the diff engine, and every order in which the
  remainder sets are listed, the output partitions each side: the number of lines of a
  side is the number of common lines plus the number of its truly unique lines plus the
  number of similar pairs; the common lines, the truly unique lines and the matched lines
  of a side are pairwise disjoint and together are all its lines; and no line is matched
  in more than one pair.
\<close>

theorem diff_partition:
  assumes "enumerates enum (set results1 - set results2)"
      and "enumerates enum (set results2 - set results1)"
      and "compare_line_sets ratio enum results1 results2
             = (u1, u2, similar_pairs, common, total1, total2)"
  shows "total1 = card common + card u1 + length similar_pairs
         \<and> total2 = card common + card u2 + length similar_pairs
         \<and> set results1 = common \<union> u1 \<union> fst ` set similar_pairs
         \<and> set results2 = common \<union> u2 \<union> snd ` set similar_pairs
         \<and> common \<inter> u1 = {} \<and> common \<inter> fst ` set similar_pairs = {}
         \<and> u1 \<inter> fst ` set similar_pairs = {}
         \<and> common \<inter> u2 = {} \<and> common \<inter> snd ` set similar_pairs = {}
         \<and> u2 \<inter> snd ` set similar_pairs = {}
         \<and> distinct (map fst similar_pairs) \<and> distinct (map snd similar_pairs)"
proof -
  note u = compare_line_sets_unfold[OF assms(3)]
  note i = find_similar_lines_advanced_inv[OF assms(1,2) u(4)]
  let ?M1 = "fst ` set similar_pairs" and ?M2 = "snd ` set similar_pairs"
  have sub1: "?M1 \<subseteq> set results1 - set results2" using i(5) by fastforce
  have sub2: "?M2 \<subseteq> set results2 - set results1" using i(5) by fastforce
  have c1: "card ?M1 = length similar_pairs"
    using i(1) distinct_card[of "map fst similar_pairs"] by simp
  have c2: "card ?M2 = length similar_pairs"
    using i(2) distinct_card[of "map snd similar_pairs"] by simp
  have s1: "set results1 = common \<union> u1 \<union> ?M1" using u(1) i(3) sub1 by auto
  have s2: "set results2 = common \<union> u2 \<union> ?M2" using u(1) i(4) sub2 by auto
  have d1: "common \<inter> u1 = {}" "common \<inter> ?M1 = {}" "u1 \<inter> ?M1 = {}"
    using u(1) i(3) sub1 by auto
  have d2: "common \<inter> u2 = {}" "common \<inter> ?M2 = {}" "u2 \<inter> ?M2 = {}"
    using u(1) i(4) sub2 by auto
  have fin: "finite common" "finite u1" "finite u2" "finite ?M1" "finite ?M2"
    using u(1) i(3,4) by auto
  have "card (set results1) = card (common \<union> u1) + card ?M1"
    unfolding s1 using fin d1 by (intro card_Un_disjoint) auto
  also have "card (common \<union> u1) = card common + card u1"
    using fin d1 by (intro card_Un_disjoint) auto
  finally have t1: "total1 = card common + card u1 + length similar_pairs"
    using u(2) c1 by simp
  have "card (set results2) = card (common \<union> u2) + card ?M2"
    unfolding s2 using fin d2 by (intro card_Un_disjoint) auto
  also have "card (common \<union> u2) = card common + card u2"
    using fin d2 by (intro card_Un_disjoint) auto
  finally have t2: "total2 = card common + card u2 + length similar_pairs"
    using u(3) c2 by simp
  from t1 t2 s1 s2 d1 d2 i(1,2) show ?thesis by blast
qed


theorem diff_partition_witness:
  "enumerates (enum_by [''set vlan 10'', ''set vlan 20'', ''set snmp x''])
       (set [''set vlan 10'', ''set ip 1.1.1.1/24''] - set [''set vlan 20'', ''set ip 1.1.1.1/24'', ''set snmp x''])
   \<and> enumerates (enum_by [''set vlan 10'', ''set vlan 20'', ''set snmp x''])
       (set [''set vlan 20'', ''set ip 1.1.1.1/24'', ''set snmp x''] - set [''set vlan 10'', ''set ip 1.1.1.1/24''])
   \<and> compare_line_sets position_ratio (enum_by [''set vlan 10'', ''set vlan 20'', ''set snmp x''])
         [''set vlan 10'', ''set ip 1.1.1.1/24''] [''set vlan 20'', ''set ip 1.1.1.1/24'', ''set snmp x'']
       = ({}, {''set snmp x''}, [(''set vlan 10'', ''set vlan 20'')], {''set ip 1.1.1.1/24''}, 2, 3)
   \<and> (2::nat) = card {''set ip 1.1.1.1/24''} + card ({}::string set)
         + length [(''set vlan 10'', ''set vlan 20'')]
   \<and> (3::nat) = card {''set ip 1.1.1.1/24''} + card {''set snmp x''}
         + length [(''set vlan 10'', ''set vlan 20'')]"
proof -
  let ?e = "enum_by [''set vlan 10'', ''set vlan 20'', ''set snmp x'']"
  let ?r1 = "[''set vlan 10'', ''set ip 1.1.1.1/24'']"
  let ?r2 = "[''set vlan 20'', ''set ip 1.1.1.1/24'', ''set snmp x'']"
  have h1: "enumerates ?e (set ?r1 - set ?r2)" by code_simp
  have h2: "enumerates ?e (set ?r2 - set ?r1)" by code_simp
  have h3: "compare_line_sets position_ratio ?e ?r1 ?r2
       = ({}, {''set snmp x''}, [(''set vlan 10'', ''set vlan 20'')], {''set ip 1.1.1.1/24''}, 2, 3)"
    by code_simp
  from diff_partition [OF h1 h2 h3] h1 h2 h3 show ?thesis by blast
qed

section \<open>The push and its backup: theorems\<close>


lemma backup_failed_not_True: "backup_failed con d msg \<noteq> Inr True"
  by (simp add: backup_failed_def split: option.splits)

lemma create_backup_no_config_step:
  "list_all (\<lambda>ev. \<not> is_config_step ev) (snd (create_backup w con d))"
  by (simp add: create_backup_def Let_def split: sum.splits option.splits)

lemma create_backup_True:
  "fst (create_backup w con d) = Inr True \<longleftrightarrow>
     (\<exists>text. dev_get_config w Push d Active = Inr (Some text)
        \<and> dev_open_backup w d = None \<and> dev_write_backup w d text = None
        \<and> backup_created_error con d = None)"
  by (auto simp add: create_backup_def Let_def backup_failed_not_True
           split: sum.splits option.splits)

lemma create_backup_True_trace:
  "fst (create_backup w con d) = Inr True \<Longrightarrow>
     \<exists>text. dev_get_config w Push d Active = Inr (Some text)
       \<and> snd (create_backup w con d) = [ReadConfig d, OpenBackupFile d, WriteBackup d text]"
  by (auto simp add: create_backup_def Let_def backup_failed_not_True
           split: sum.splits option.splits)


lemma push_open_fails:
  "dev_open w Push d = Inl e \<Longrightarrow>
     push_config_to_device w con d c op b = (exn_result e, [OpenSession d])"
  by (simp add: push_config_to_device_def)

lemma push_backup_raises:
  "dev_open w Push d = Inr u \<Longrightarrow> fst (create_backup w con d) = Inl e \<Longrightarrow>
     push_config_to_device w con d c op True
       = (unexpected_error e, OpenSession d # snd (create_backup w con d))"
  by (cases "create_backup w con d") (simp add: push_config_to_device_def)

lemma push_backup_False:
  "dev_open w Push d = Inr u \<Longrightarrow> fst (create_backup w con d) = Inr False \<Longrightarrow>
     push_config_to_device w con d c op True
       = (Some (False, ''Failed to create backup''), OpenSession d # snd (create_backup w con d))"
  by (cases "create_backup w con d") (simp add: push_config_to_device_def)

lemma push_backup_True:
  "dev_open w Push d = Inr u \<Longrightarrow> fst (create_backup w con d) = Inr True \<Longrightarrow>
     snd (push_config_to_device w con d c op True)
       = OpenSession d # snd (create_backup w con d)
           @ Lock d # (case dev_lock w d of
                         Inl e \<Rightarrow> []
                       | Inr v \<Rightarrow> snd (locked_operation w con d c op))"
  by (cases "create_backup w con d"; cases "locked_operation w con d c op")
     (simp add: push_config_to_device_def split: sum.splits)

lemma push_backup_trace:
  "\<exists>rest. snd (push_config_to_device w con d c op True)
             = OpenSession d # (case dev_open w Push d of
                                  Inl e \<Rightarrow> []
                                | Inr u \<Rightarrow> snd (create_backup w con d)) @ rest
          \<and> (rest \<noteq> [] \<longrightarrow> dev_open w Push d = Inr () \<and> fst (create_backup w con d) = Inr True)"
proof (cases "dev_open w Push d")
  case (Inl e)
  then show ?thesis by (simp add: push_open_fails)
next
  case (Inr u)
  show ?thesis
  proof (cases "fst (create_backup w con d)")
    case (Inl e)
    then show ?thesis using Inr by (simp add: push_backup_raises)
  next
    case r: (Inr ok)
    show ?thesis
    proof (cases ok)
      case True
      then show ?thesis using Inr r by (simp add: push_backup_True)
    next
      case False
      then show ?thesis using Inr r by (simp add: push_backup_False)
    qed
  qed
qed


lemma same_answers_fields:
  assumes "same_answers w w' d"
  shows "dev_open w Push d = dev_open w' Push d"
    and "dev_get_config w Push d Active = dev_get_config w' Push d Active"
    and "dev_open_backup w d = dev_open_backup w' d"
    and "dev_write_backup w d text = dev_write_backup w' d text"
    and "dev_lock w d = dev_lock w' d"
    and "dev_load w d text = dev_load w' d text"
    and "dev_commit_check w d = dev_commit_check w' d"
    and "dev_commit w d confirm = dev_commit w' d confirm"
  using assms by (simp_all add: same_answers_def)

lemma create_backup_same:
  "same_answers w w' d \<Longrightarrow> create_backup w con d = create_backup w' con d"
  by (simp only: create_backup_def same_answers_fields)

lemma locked_operation_same:
  "same_answers w w' d \<Longrightarrow> locked_operation w con d c op = locked_operation w' con d c op"
  by (simp only: locked_operation_def same_answers_fields)

lemma push_same_answers:
  "same_answers w w' d \<Longrightarrow>
     push_config_to_device w con d c op b = push_config_to_device w' con d c op b"
  by (simp only: push_config_to_device_def same_answers_fields create_backup_same
                 locked_operation_same)

lemma map_of_dict_set: "map_of (dict_set xs k v) = (map_of xs)(k \<mapsto> v)"
  by (induction xs) (auto simp add: fun_eq_iff)

lemma map_of_foldl_dict_set:
  "map_of (foldl (\<lambda>results device. dict_set results device (f device)) acc devices) d
     = (if d \<in> set devices then Some (f d) else map_of acc d)"
  by (induction devices arbitrary: acc) (simp_all add: map_of_dict_set)

lemma execute_parallel_result:
  "d \<in> set devices \<Longrightarrow>
     map_of (fst (execute_parallel w con devices c op b)) d
       = Some (parallel_outcome (fst (push_config_to_device w con d c op b)))"
  by (simp add: execute_parallel_def map_of_foldl_dict_set)

lemma execute_sequential_step:
  assumes "processing_error con d = None" "executing_display_error con op d = None"
      and "fst (push_config_to_device w con d c op b) = Some (ok, msg)"
      and "result_error con d ok msg = None"
  shows "execute_sequential w con (d # rest) c op b results
           = (fst (execute_sequential w con rest c op b (dict_set results d (ok, msg))),
              snd (push_config_to_device w con d c op b)
                @ snd (execute_sequential w con rest c op b (dict_set results d (ok, msg))))"
  using assms
  by (cases "push_config_to_device w con d c op b")
     (simp add: case_prod_beta)

lemma execute_sequential_result_raises:
  assumes "processing_error con d = None" "executing_display_error con op d = None"
      and "fst (push_config_to_device w con d c op b) = Some (ok, msg)"
      and "result_error con d ok msg = Some m"
  shows "execute_sequential w con (d # rest) c op b results
           = (Inl (PrintRaised (MarkupError m)), snd (push_config_to_device w con d c op b))"
  using assms
  by (cases "push_config_to_device w con d c op b") simp


lemma create_backup_raises:
  "fst (create_backup w con d) = Inl (MarkupError m) \<Longrightarrow>
     \<exists>message. backup_failed_error con d message = Some m"
  by (auto simp add: create_backup_def Let_def backup_failed_def
           split: sum.splits option.splits)

text \<open>
  Claim C6. A push with the backup flag starts with the session and the calls of the
  backup, none of which is a step on the configuration; a lock, load or commit follows
  only when the backup returned \<^verbatim>\<open>True\<close>, that is when the configuration was read and
  written to the backup file. When the backup returns \<^verbatim>\<open>False\<close> the push returns the
  failure ``Failed to create backup'' and when the failure print of the backup raises
  it returns the failure ``Unexpected error: ...'', in both cases with no step on the
  configuration. In parallel mode the result of every device is the result of its own
  push, which depends on the answers about that device only; in sequential mode the
  loop goes on to the next devices after a failed backup when the prints about the
  device return, and ends with the exception, the next devices untouched, when the
  print of a result raises.
\<close>

theorem backup_before_config_steps:
  "(\<exists>rest. snd (push_config_to_device w con d c op True)
             = OpenSession d # (case dev_open w Push d of
                                  Inl e \<Rightarrow> []
                                | Inr u \<Rightarrow> snd (create_backup w con d)) @ rest
          \<and> (rest \<noteq> [] \<longrightarrow> dev_open w Push d = Inr () \<and> fst (create_backup w con d) = Inr True))
   \<and> list_all (\<lambda>ev. \<not> is_config_step ev) (snd (create_backup w con d))
   \<and> (fst (create_backup w con d) = Inr True \<longrightarrow>
        (\<exists>text. dev_get_config w Push d Active = Inr (Some text)
           \<and> dev_open_backup w d = None \<and> dev_write_backup w d text = None
           \<and> snd (create_backup w con d) = [ReadConfig d, OpenBackupFile d, WriteBackup d text]))
   \<and> (dev_open w Push d = Inr () \<and> fst (create_backup w con d) = Inr False \<longrightarrow>
        push_config_to_device w con d c op True
          = (Some (False, ''Failed to create backup''),
             OpenSession d # snd (create_backup w con d)))
   \<and> (\<forall>m. dev_open w Push d = Inr () \<and> fst (create_backup w con d) = Inl (MarkupError m) \<longrightarrow>
        (\<exists>message. backup_failed_error con d message = Some m)
        \<and> push_config_to_device w con d c op True
            = (Some (False, ''Unexpected error: '' @ m),
               OpenSession d # snd (create_backup w con d)))
   \<and> (d \<in> set devices \<longrightarrow>
        map_of (fst (execute_parallel w con devices c op b)) d
          = Some (parallel_outcome (fst (push_config_to_device w con d c op b))))
   \<and> (\<forall>w'. same_answers w w' d \<longrightarrow>
        push_config_to_device w' con d c op b = push_config_to_device w con d c op b)
   \<and> (dev_open w Push d = Inr () \<and> fst (create_backup w con d) = Inr False
        \<and> processing_error con d = None \<and> executing_display_error con op d = None
        \<and> result_error con d False ''Failed to create backup'' = None \<longrightarrow>
        execute_sequential w con (d # others) c op True results
          = (fst (execute_sequential w con others c op True
                    (dict_set results d (False, ''Failed to create backup''))),
             OpenSession d # snd (create_backup w con d)
               @ snd (execute_sequential w con others c op True
                        (dict_set results d (False, ''Failed to create backup'')))))
   \<and> (\<forall>ok message m. processing_error con d = None \<and> executing_display_error con op d = None
        \<and> fst (push_config_to_device w con d c op b) = Some (ok, message)
        \<and> result_error con d ok message = Some m \<longrightarrow>
        execute_sequential w con (d # others) c op b results
          = (Inl (PrintRaised (MarkupError m)), snd (push_config_to_device w con d c op b)))"
proof (intro conjI allI impI)
  show "\<exists>rest. snd (push_config_to_device w con d c op True)
             = OpenSession d # (case dev_open w Push d of
                                  Inl e \<Rightarrow> []
                                | Inr u \<Rightarrow> snd (create_backup w con d)) @ rest
          \<and> (rest \<noteq> [] \<longrightarrow> dev_open w Push d = Inr () \<and> fst (create_backup w con d) = Inr True)"
    by (rule push_backup_trace)
next
  show "list_all (\<lambda>ev. \<not> is_config_step ev) (snd (create_backup w con d))"
    by (rule create_backup_no_config_step)
next
  assume t: "fst (create_backup w con d) = Inr True"
  from create_backup_True_trace [OF t] obtain cfg where
    r: "dev_get_config w Push d Active = Inr (Some cfg)"
    and tr: "snd (create_backup w con d) = [ReadConfig d, OpenBackupFile d, WriteBackup d cfg]"
    by blast
  from t obtain cfg' where
    r': "dev_get_config w Push d Active = Inr (Some cfg')"
    and o: "dev_open_backup w d = None" and wr: "dev_write_backup w d cfg' = None"
    unfolding create_backup_True by blast
  from r r' have "cfg' = cfg" by simp
  with r tr o wr
  show "\<exists>text. dev_get_config w Push d Active = Inr (Some text)
           \<and> dev_open_backup w d = None \<and> dev_write_backup w d text = None
           \<and> snd (create_backup w con d) = [ReadConfig d, OpenBackupFile d, WriteBackup d text]"
    by blast
next
  assume "dev_open w Push d = Inr () \<and> fst (create_backup w con d) = Inr False"
  then show "push_config_to_device w con d c op True
          = (Some (False, ''Failed to create backup''),
             OpenSession d # snd (create_backup w con d))"
    by (simp add: push_backup_False)
next
  fix m
  assume "dev_open w Push d = Inr () \<and> fst (create_backup w con d) = Inl (MarkupError m)"
  then show "\<exists>message. backup_failed_error con d message = Some m"
    using create_backup_raises by blast
next
  fix m
  assume "dev_open w Push d = Inr () \<and> fst (create_backup w con d) = Inl (MarkupError m)"
  then show "push_config_to_device w con d c op True
            = (Some (False, ''Unexpected error: '' @ m),
               OpenSession d # snd (create_backup w con d))"
    by (simp add: push_backup_raises unexpected_error_def)
next
  assume "d \<in> set devices"
  then show "map_of (fst (execute_parallel w con devices c op b)) d
          = Some (parallel_outcome (fst (push_config_to_device w con d c op b)))"
    by (rule execute_parallel_result)
next
  fix w'
  assume "same_answers w w' d"
  then show "push_config_to_device w' con d c op b = push_config_to_device w con d c op b"
    by (simp add: push_same_answers)
next
  assume h: "dev_open w Push d = Inr () \<and> fst (create_backup w con d) = Inr False
        \<and> processing_error con d = None \<and> executing_display_error con op d = None
        \<and> result_error con d False ''Failed to create backup'' = None"
  then have p: "push_config_to_device w con d c op True
          = (Some (False, ''Failed to create backup''),
             OpenSession d # snd (create_backup w con d))"
    by (simp add: push_backup_False)
  show "execute_sequential w con (d # others) c op True results
          = (fst (execute_sequential w con others c op True
                    (dict_set results d (False, ''Failed to create backup''))),
             OpenSession d # snd (create_backup w con d)
               @ snd (execute_sequential w con others c op True
                        (dict_set results d (False, ''Failed to create backup''))))"
    using h execute_sequential_step [of con d op w c True False "''Failed to create backup''"
                                        others results]
    by (simp add: p)
next
  fix ok message m
  assume "processing_error con d = None \<and> executing_display_error con op d = None
        \<and> fst (push_config_to_device w con d c op b) = Some (ok, message)
        \<and> result_error con d ok message = Some m"
  then show "execute_sequential w con (d # others) c op b results
          = (Inl (PrintRaised (MarkupError m)), snd (push_config_to_device w con d c op b))"
    using execute_sequential_result_raises by blast
qed


lemma backup_unreadable_facts:
  "dev_open backup_unreadable_world Push ''10.0.0.1'' = Inr ()"
  "create_backup backup_unreadable_world quiet_push_console ''10.0.0.1''
     = (Inr False, [ReadConfig ''10.0.0.1''])"
  "create_backup backup_unreadable_world strict_push_console ''10.0.0.1''
     = (Inl (MarkupError (closing_tag_at ''69'')), [ReadConfig ''10.0.0.1''])"
  "processing_error quiet_push_console ''10.0.0.1'' = None"
  "executing_display_error quiet_push_console ''commit'' ''10.0.0.1'' = None"
  "result_error quiet_push_console ''10.0.0.1'' False ''Failed to create backup'' = None"
  "processing_error strict_push_console ''10.0.0.1'' = None"
  "executing_display_error strict_push_console ''commit'' ''10.0.0.1'' = None"
  "result_error strict_push_console ''10.0.0.1'' False
     (''Unexpected error: '' @ closing_tag_at ''69'') = Some (closing_tag_at ''48'')"
  by code_simp+

lemma backup_unreadable_second_device:
  "execute_sequential backup_unreadable_world quiet_push_console [''10.0.0.2'']
     ''set system ntp server 1.1.1.1'' ''commit'' True
     (dict_set [] ''10.0.0.1'' (False, ''Failed to create backup''))
   = (Inr [(''10.0.0.1'', False, ''Failed to create backup''),
           (''10.0.0.2'', True, ''Configuration committed successfully'')],
      [OpenSession ''10.0.0.2'', ReadConfig ''10.0.0.2'', OpenBackupFile ''10.0.0.2'',
       WriteBackup ''10.0.0.2'' ''set system host-name r1'', Lock ''10.0.0.2'',
       Load ''10.0.0.2'' ''set system ntp server 1.1.1.1'', Commit ''10.0.0.2'' None])"
  by code_simp

lemma backup_unreadable_parallel_second:
  "parallel_outcome (fst (push_config_to_device backup_unreadable_world strict_push_console
      ''10.0.0.2'' ''set system ntp server 1.1.1.1'' ''commit'' True))
   = (True, ''Configuration committed successfully'')"
  by code_simp

theorem backup_before_config_steps_witness:
  "push_config_to_device backup_unreadable_world quiet_push_console ''10.0.0.1''
       ''set system ntp server 1.1.1.1'' ''commit'' True
     = (Some (False, ''Failed to create backup''),
        [OpenSession ''10.0.0.1'', ReadConfig ''10.0.0.1''])
   \<and> execute_sequential backup_unreadable_world quiet_push_console
         [''10.0.0.1'', ''10.0.0.2''] ''set system ntp server 1.1.1.1'' ''commit'' True []
     = (Inr [(''10.0.0.1'', False, ''Failed to create backup''),
             (''10.0.0.2'', True, ''Configuration committed successfully'')],
        [OpenSession ''10.0.0.1'', ReadConfig ''10.0.0.1'',
         OpenSession ''10.0.0.2'', ReadConfig ''10.0.0.2'', OpenBackupFile ''10.0.0.2'',
         WriteBackup ''10.0.0.2'' ''set system host-name r1'', Lock ''10.0.0.2'',
         Load ''10.0.0.2'' ''set system ntp server 1.1.1.1'', Commit ''10.0.0.2'' None])
   \<and> push_config_to_device backup_unreadable_world strict_push_console ''10.0.0.1''
         ''set system ntp server 1.1.1.1'' ''commit'' True
     = (Some (False, ''Unexpected error: '' @ closing_tag_at ''69''),
        [OpenSession ''10.0.0.1'', ReadConfig ''10.0.0.1''])
   \<and> execute_sequential backup_unreadable_world strict_push_console
         [''10.0.0.1'', ''10.0.0.2''] ''set system ntp server 1.1.1.1'' ''commit'' True []
     = (Inl (PrintRaised (MarkupError (closing_tag_at ''48''))),
        [OpenSession ''10.0.0.1'', ReadConfig ''10.0.0.1''])
   \<and> map_of (fst (execute_parallel backup_unreadable_world strict_push_console
                     [''10.0.0.1'', ''10.0.0.2''] ''set system ntp server 1.1.1.1''
                     ''commit'' True)) ''10.0.0.2''
     = Some (True, ''Configuration committed successfully'')"
proof -
  note f = backup_unreadable_facts
  note q = backup_before_config_steps
             [where w = backup_unreadable_world and con = quiet_push_console
                and d = "''10.0.0.1''" and c = "''set system ntp server 1.1.1.1''"
                and op = "''commit''" and b = True and others = "[''10.0.0.2'']"
                and results = "[]"]
  note s = backup_before_config_steps
             [where w = backup_unreadable_world and con = strict_push_console
                and d = "''10.0.0.1''" and c = "''set system ntp server 1.1.1.1''"
                and op = "''commit''" and b = True and others = "[''10.0.0.2'']"
                and results = "[]"]
  note p = backup_before_config_steps
             [where w = backup_unreadable_world and con = strict_push_console
                and d = "''10.0.0.2''" and c = "''set system ntp server 1.1.1.1''"
                and op = "''commit''" and b = True
                and devices = "[''10.0.0.1'', ''10.0.0.2'']"]
  have a1: "push_config_to_device backup_unreadable_world quiet_push_console ''10.0.0.1''
       ''set system ntp server 1.1.1.1'' ''commit'' True
     = (Some (False, ''Failed to create backup''),
        [OpenSession ''10.0.0.1'', ReadConfig ''10.0.0.1''])"
    using q [THEN conjunct2, THEN conjunct2, THEN conjunct2, THEN conjunct1]
    by (simp add: f)
  have a2: "execute_sequential backup_unreadable_world quiet_push_console
         [''10.0.0.1'', ''10.0.0.2''] ''set system ntp server 1.1.1.1'' ''commit'' True []
     = (Inr [(''10.0.0.1'', False, ''Failed to create backup''),
             (''10.0.0.2'', True, ''Configuration committed successfully'')],
        [OpenSession ''10.0.0.1'', ReadConfig ''10.0.0.1'',
         OpenSession ''10.0.0.2'', ReadConfig ''10.0.0.2'', OpenBackupFile ''10.0.0.2'',
         WriteBackup ''10.0.0.2'' ''set system host-name r1'', Lock ''10.0.0.2'',
         Load ''10.0.0.2'' ''set system ntp server 1.1.1.1'', Commit ''10.0.0.2'' None])"
  proof -
    have h: "dev_open backup_unreadable_world Push ''10.0.0.1'' = Inr ()
        \<and> fst (create_backup backup_unreadable_world quiet_push_console ''10.0.0.1'') = Inr False
        \<and> processing_error quiet_push_console ''10.0.0.1'' = None
        \<and> executing_display_error quiet_push_console ''commit'' ''10.0.0.1'' = None
        \<and> result_error quiet_push_console ''10.0.0.1'' False ''Failed to create backup'' = None"
      by (simp add: f)
    note e = q [THEN conjunct2, THEN conjunct2, THEN conjunct2, THEN conjunct2, THEN conjunct2,
                THEN conjunct2, THEN conjunct2, THEN conjunct1, THEN mp, OF h]
    show ?thesis
      unfolding e backup_unreadable_second_device f by simp
  qed
  have a3: "push_config_to_device backup_unreadable_world strict_push_console ''10.0.0.1''
         ''set system ntp server 1.1.1.1'' ''commit'' True
     = (Some (False, ''Unexpected error: '' @ closing_tag_at ''69''),
        [OpenSession ''10.0.0.1'', ReadConfig ''10.0.0.1''])"
    using s [THEN conjunct2, THEN conjunct2, THEN conjunct2, THEN conjunct2, THEN conjunct1,
             rule_format, of "closing_tag_at ''69''"]
    by (simp add: f)
  have a4: "execute_sequential backup_unreadable_world strict_push_console
         [''10.0.0.1'', ''10.0.0.2''] ''set system ntp server 1.1.1.1'' ''commit'' True []
     = (Inl (PrintRaised (MarkupError (closing_tag_at ''48''))),
        [OpenSession ''10.0.0.1'', ReadConfig ''10.0.0.1''])"
  proof -
    have h: "processing_error strict_push_console ''10.0.0.1'' = None
        \<and> executing_display_error strict_push_console ''commit'' ''10.0.0.1'' = None
        \<and> fst (push_config_to_device backup_unreadable_world strict_push_console ''10.0.0.1''
                 ''set system ntp server 1.1.1.1'' ''commit'' True)
            = Some (False, ''Unexpected error: '' @ closing_tag_at ''69'')
        \<and> result_error strict_push_console ''10.0.0.1'' False
             (''Unexpected error: '' @ closing_tag_at ''69'') = Some (closing_tag_at ''48'')"
      by (intro conjI) (simp_all only: f a3 fst_conv)
    note e = s [THEN conjunct2, THEN conjunct2, THEN conjunct2, THEN conjunct2, THEN conjunct2,
                THEN conjunct2, THEN conjunct2, THEN conjunct2, THEN spec, THEN spec, THEN spec,
                THEN mp, OF h]
    show ?thesis
      unfolding e a3 by simp
  qed
  have a5: "map_of (fst (execute_parallel backup_unreadable_world strict_push_console
                     [''10.0.0.1'', ''10.0.0.2''] ''set system ntp server 1.1.1.1''
                     ''commit'' True)) ''10.0.0.2''
     = Some (True, ''Configuration committed successfully'')"
    using p [THEN conjunct2, THEN conjunct2, THEN conjunct2, THEN conjunct2, THEN conjunct2,
             THEN conjunct1]
    by (simp add: backup_unreadable_parallel_second)
  from a1 a2 a3 a4 a5 show ?thesis by (intro conjI)
qed

section \<open>The normalization-based pass is dead code\<close>

lemma execute_closure_closed:
  "m \<in> set execute_closure \<Longrightarrow> m' \<in> set (calls m) \<Longrightarrow> m' \<in> set execute_closure"
  by (cases m) (auto simp: execute_closure_def)

lemma reaches_closure:
  "reaches a b \<Longrightarrow> a \<in> set execute_closure \<Longrightarrow> b \<in> set execute_closure"
  by (induction rule: reaches.induct) (auto dest: execute_closure_closed)

lemma init_tool_normalize_patterns:
  "init_tool parsed path tmo verb = Inr self \<Longrightarrow> normalize_patterns self = None"
  by (auto simp: init_tool_def load_config_def init_attributes_def Let_def
           split: option.splits if_splits)

lemma normalize_all_fails:
  "normalize_patterns self = None \<Longrightarrow> ls \<noteq> [] \<Longrightarrow> normalize_all re_sub self ls = Inl AttributeError"
  by (cases ls) (simp_all add: normalize_config_line_def)

lemma normalize_all_cases:
  "normalize_patterns self = None \<Longrightarrow>
     normalize_all re_sub self ls = (if ls = [] then Inr [] else Inl AttributeError)"
  by (cases ls) (simp_all add: normalize_config_line_def)

text \<open>
  Claim C10. The normalization-based similarity pass is not reachable from \<^verbatim>\<open>execute\<close>
  (neither \<^verbatim>\<open>_find_similar_lines\<close> nor \<^verbatim>\<open>_normalize_config_line\<close> is among the
  methods it reaches); no method assigns the attribute \<^verbatim>\<open>normalize_patterns\<close>, so it
  is unset in every tool the constructor builds; and with the attribute unset,
  normalizing any line raises \<^verbatim>\<open>AttributeError\<close>, and so does the pass on every pair
  of line sets of which one is not empty.
\<close>

theorem normalization_pass_unreachable:
  "\<not> reaches M_execute M_find_similar_lines
   \<and> \<not> reaches M_execute M_normalize_config_line
   \<and> (\<forall>m. A_normalize_patterns \<notin> set (assigns m))
   \<and> (\<forall>parsed path tmo verb self.
         init_tool parsed path tmo verb = Inr self \<longrightarrow> normalize_patterns self = None)
   \<and> (normalize_patterns self = None \<longrightarrow>
         (\<forall>line. normalize_config_line re_sub self line = Inl AttributeError)
         \<and> (enumerates enum lines1 \<and> enumerates enum lines2 \<and> (lines1 \<noteq> {} \<or> lines2 \<noteq> {})
              \<longrightarrow> find_similar_lines re_sub enum self lines1 lines2 = Inl AttributeError))"
proof -
  have ex: "M_execute \<in> set execute_closure" by (simp add: execute_closure_def)
  have 1: "\<not> reaches M_execute M_find_similar_lines"
    using reaches_closure[OF _ ex, of M_find_similar_lines] by (auto simp: execute_closure_def)
  have 2: "\<not> reaches M_execute M_normalize_config_line"
    using reaches_closure[OF _ ex, of M_normalize_config_line] by (auto simp: execute_closure_def)
  have 3: "\<forall>m. A_normalize_patterns \<notin> set (assigns m)"
  proof
    fix m show "A_normalize_patterns \<notin> set (assigns m)" by (cases m) simp_all
  qed
  have 4: "\<forall>parsed path tmo verb self.
         init_tool parsed path tmo verb = Inr self \<longrightarrow> normalize_patterns self = None"
    using init_tool_normalize_patterns by blast
  have 5: "normalize_patterns self = None \<longrightarrow>
         (\<forall>line. normalize_config_line re_sub self line = Inl AttributeError)
         \<and> (enumerates enum lines1 \<and> enumerates enum lines2 \<and> (lines1 \<noteq> {} \<or> lines2 \<noteq> {})
              \<longrightarrow> find_similar_lines re_sub enum self lines1 lines2 = Inl AttributeError)"
  proof (intro impI conjI allI)
    fix line assume n: "normalize_patterns self = None"
    then show "normalize_config_line re_sub self line = Inl AttributeError"
      by (simp add: normalize_config_line_def)
  next
    assume n: "normalize_patterns self = None"
      and h: "enumerates enum lines1 \<and> enumerates enum lines2 \<and> (lines1 \<noteq> {} \<or> lines2 \<noteq> {})"
    then have "enum lines1 \<noteq> [] \<or> enum lines2 \<noteq> []"
      by (auto simp: enumerates_def)
    then show "find_similar_lines re_sub enum self lines1 lines2 = Inl AttributeError"
      by (auto simp: find_similar_lines_def normalize_all_cases[OF n])
  qed
  from 1 2 3 4 5 show ?thesis by blast
qed

theorem normalization_pass_unreachable_witness:
  "init_tool (Some sample_ini) ''config.ini'' 60 False = Inr sample_tool
   \<and> normalize_patterns sample_tool = None
   \<and> enumerates (enum_by [''set vlan 10'']) {''set vlan 10''}
   \<and> enumerates (enum_by [''set vlan 10'']) {}
   \<and> normalize_config_line (\<lambda>s line. line) sample_tool ''set vlan 10'' = Inl AttributeError
   \<and> find_similar_lines (\<lambda>s line. line) (enum_by [''set vlan 10'']) sample_tool {''set vlan 10''} {}
       = Inl AttributeError"
proof -
  have i: "init_tool (Some sample_ini) ''config.ini'' 60 False = Inr sample_tool" by code_simp
  have e1: "enumerates (enum_by [''set vlan 10'']) {''set vlan 10''}" by code_simp
  have e2: "enumerates (enum_by [''set vlan 10'']) {}" by code_simp
  note t = normalization_pass_unreachable [of sample_tool "\<lambda>s line. line" "enum_by [''set vlan 10'']"
             "{''set vlan 10''}" "{}"]
  note t4 = t [THEN conjunct2, THEN conjunct2, THEN conjunct2, THEN conjunct1, rule_format, OF i]
  note t5 = t [THEN conjunct2, THEN conjunct2, THEN conjunct2, THEN conjunct2, THEN mp, OF t4]
  have n: "normalize_config_line (\<lambda>s line. line) sample_tool ''set vlan 10'' = Inl AttributeError"
    using t5 [THEN conjunct1] by (rule spec)
  have "enumerates (enum_by [''set vlan 10'']) {''set vlan 10''}
        \<and> enumerates (enum_by [''set vlan 10'']) {} \<and> ({''set vlan 10''} \<noteq> {} \<or> ({}::string set) \<noteq> {})"
    using e1 e2 by simp
  with t5 [THEN conjunct2]
  have f: "find_similar_lines (\<lambda>s line. line) (enum_by [''set vlan 10'']) sample_tool {''set vlan 10''} {}
       = Inl AttributeError" by (rule mp)
  show ?thesis using i t4 e1 e2 n f by (intro conjI)
qed


end
